theory Spec2Isabelle
  imports Main "HOL-Library.Word" "HOL-Library.Multiset" "HOL-Library.List_Lexorder" "HOL-Library.Char_ord"
begin

section \<open>Fee allocation of the distribution keeper (x/distribution/keeper/allocation.go)\<close>

text \<open>
  The development embeds the three methods of \<open>allocation.go\<close>:
  \<open>AllocateTokens\<close>, \<open>AllocateTokensToValidator\<close> and
  \<open>SendDecimalPoolToCommunityPool\<close>. The file calls into the decimal library
  (\<open>cosmossdk.io/math\<close>), the coin types (\<open>types/dec_coin.go\<close>), the bank, staking and
  auth keepers and the collections store. None of these is part of the source file; each
  is modelled below from the specification's description of it where there is one, and by
  what the exported function of that name computes where there is none, and every such
  definition says which.

  A Go function that returns \<open>error\<close> and mutates the store is a function from the state
  to \<open>(error option \<times> State) exec\<close>: \<open>Panic\<close> when the Go code panics, otherwise the
  returned error (\<open>None\<close> for \<open>nil\<close>) and the state it leaves behind.
\<close>

subsection \<open>Panics and errors\<close>

datatype panic = DivisionByZero | NegativeCoinAmount

datatype 'a exec = Panic panic | Return 'a

datatype error =
    ErrNotFound
  | ErrNoValidatorFound
  | ErrInsufficientFunds
  | ErrInvalidCoins
  | ErrInvalidAddress string

subsection \<open>LegacyDec: 18-digit fixed-point decimals\<close>

text \<open>
  Modelled from the spec: the fixed-point decimal type (cosmossdk.io/math is not in the
  source file), "exact rational/decimal semantics, not floating point", with "truncating
  arithmetic: rounding toward zero" for \<open>MulTruncate\<close> and \<open>QuoTruncate\<close>. A
  \<open>LegacyDec\<close> wraps a \<open>big.Int\<close> holding the value times \<open>10^18\<close>; the model
  is that integer. The specification describes no rounding multiplication; \<open>LegacyDec.Mul\<close>,
  which \<open>DecCoins.MulDec\<close> of line 108 calls, is modelled by what the library function
  computes: the product chopped by banker's rounding. The library's guard on the bit length
  of a result (a panic beyond 315 bits) is not modelled: amounts are unbounded integers.
\<close>

type_synonym LegacyDec = int

definition precisionReuse :: int where
  "precisionReuse = 10 ^ 18"

definition fivePrecision :: int where
  "fivePrecision = 5 * 10 ^ 17"

text \<open>\<open>big.Int.Quo\<close>: the quotient truncated towards zero (the divisor is not zero).\<close>

definition Quo :: "int \<Rightarrow> int \<Rightarrow> int" where
  "Quo x y = sgn x * sgn y * (\<bar>x\<bar> div \<bar>y\<bar>)"

definition chopPrecisionAndTruncate :: "int \<Rightarrow> int" where
  "chopPrecisionAndTruncate d = Quo d precisionReuse"

text \<open>
  \<open>chopPrecisionAndRound\<close>: drop 18 digits, rounding to the nearest value and a tie to
  the even neighbour (banker's rounding); a negative argument is negated, rounded and
  negated back.
\<close>

definition chopPrecisionAndRound :: "int \<Rightarrow> int" where
  "chopPrecisionAndRound d =
     (let a = \<bar>d\<bar>;
          quo = a div precisionReuse;
          rem = a mod precisionReuse;
          r = (if rem = 0 then quo
               else if rem < fivePrecision then quo
               else if fivePrecision < rem then quo + 1
               else if even quo then quo
               else quo + 1)
      in if d < 0 then - r else r)"

definition LegacyNewDec :: "int \<Rightarrow> LegacyDec" where
  "LegacyNewDec i = i * precisionReuse"

definition LegacyOneDec :: LegacyDec where
  "LegacyOneDec = precisionReuse"

text \<open>\<open>LegacyDec.Mul\<close> rounds, \<open>LegacyDec.MulTruncate\<close> truncates.\<close>

definition LegacyDec_Mul :: "LegacyDec \<Rightarrow> LegacyDec \<Rightarrow> LegacyDec" where
  "LegacyDec_Mul d d2 = chopPrecisionAndRound (d * d2)"

definition LegacyDec_MulTruncate :: "LegacyDec \<Rightarrow> LegacyDec \<Rightarrow> LegacyDec" where
  "LegacyDec_MulTruncate d d2 = chopPrecisionAndTruncate (d * d2)"

text \<open>
  \<open>LegacyDec.QuoTruncate\<close>: the dividend is scaled by \<open>10^36\<close>, divided with
  \<open>big.Int.Quo\<close> (which panics on a zero divisor) and chopped by truncation.
\<close>

definition LegacyDec_QuoTruncate :: "LegacyDec \<Rightarrow> LegacyDec \<Rightarrow> LegacyDec exec" where
  "LegacyDec_QuoTruncate d d2 =
     (if d2 = 0 then Panic DivisionByZero
      else Return (chopPrecisionAndTruncate (Quo (d * precisionReuse * precisionReuse) d2)))"

definition LegacyDec_TruncateInt :: "LegacyDec \<Rightarrow> int" where
  "LegacyDec_TruncateInt d = chopPrecisionAndTruncate d"

subsection \<open>Coins and DecCoins\<close>

text \<open>
  Modelled from the spec: "an amount-per-denomination map with fixed-point fractional
  precision" (types/coin.go and types/dec_coin.go are not in the source file), in the
  representation the library keeps. \<open>Coins\<close> is a list of (denomination, whole amount)
  and \<open>DecCoins\<close> a list of (denomination, \<open>LegacyDec\<close>), both sorted by denomination
  with no zero amount. Denominations are compared as byte strings. The validation of a
  denomination's characters is not modelled.
\<close>

type_synonym Coins = "(string \<times> int) list"

type_synonym DecCoins = "(string \<times> LegacyDec) list"

definition removeZeroDecCoins :: "DecCoins \<Rightarrow> DecCoins" where
  "removeZeroDecCoins coins = filter (\<lambda>coin. snd coin \<noteq> 0) coins"

text \<open>
  \<open>safeAdd\<close>: the merge of two sorted lists that adds the amounts of a denomination both
  lists hold and leaves out every zero amount (\<open>keepNonZero\<close> is the library's
  \<open>if !coin.IsZero() { sum = append(sum, coin) }\<close>). \<open>DecCoins.Add\<close> and \<open>Coins.Add\<close> are this
  function.
\<close>

definition keepNonZero :: "string \<times> LegacyDec \<Rightarrow> DecCoins \<Rightarrow> DecCoins" where
  "keepNonZero coin acc = (if snd coin = 0 then acc else coin # acc)"

fun safeAdd :: "DecCoins \<Rightarrow> DecCoins \<Rightarrow> DecCoins" where
  "safeAdd [] coinsB = removeZeroDecCoins coinsB"
| "safeAdd (coinA # restA) [] = removeZeroDecCoins (coinA # restA)"
| "safeAdd ((denomA, amtA) # restA) ((denomB, amtB) # restB) =
     (if denomA < denomB then
        keepNonZero (denomA, amtA) (safeAdd restA ((denomB, amtB) # restB))
      else if denomA = denomB then
        keepNonZero (denomA, amtA + amtB) (safeAdd restA restB)
      else
        keepNonZero (denomB, amtB) (safeAdd ((denomA, amtA) # restA) restB))"

definition negative :: "DecCoins \<Rightarrow> DecCoins" where
  "negative coins = map (\<lambda>coin. (fst coin, - snd coin)) coins"

definition IsAnyNegative :: "DecCoins \<Rightarrow> bool" where
  "IsAnyNegative coins = list_ex (\<lambda>coin. snd coin < 0) coins"

text \<open>\<open>DecCoins.Sub\<close> panics when a denomination of the difference is negative.\<close>

definition DecCoins_Sub :: "DecCoins \<Rightarrow> DecCoins \<Rightarrow> DecCoins exec" where
  "DecCoins_Sub coins coinsB =
     (let diff = safeAdd coins (negative coinsB)
      in if IsAnyNegative diff then Panic NegativeCoinAmount else Return diff)"

definition DecCoins_IsZero :: "DecCoins \<Rightarrow> bool" where
  "DecCoins_IsZero coins = list_all (\<lambda>coin. snd coin = 0) coins"

definition AmountOf :: "DecCoins \<Rightarrow> string \<Rightarrow> int" where
  "AmountOf coins denom = (case map_of coins denom of None \<Rightarrow> 0 | Some amount \<Rightarrow> amount)"

text \<open>
  \<open>DecCoins.MulDec\<close> multiplies every amount with \<open>LegacyDec.Mul\<close> (rounding),
  \<open>DecCoins.MulDecTruncate\<close> with \<open>LegacyDec.MulTruncate\<close>; both leave out the
  products that are zero. (The library appends the products one by one with \<open>Add\<close>, which
  on a sorted list is the list of the non-zero products.)
\<close>

definition DecCoins_MulDec :: "DecCoins \<Rightarrow> LegacyDec \<Rightarrow> DecCoins" where
  "DecCoins_MulDec coins d =
     removeZeroDecCoins (map (\<lambda>coin. (fst coin, LegacyDec_Mul (snd coin) d)) coins)"

definition DecCoins_MulDecTruncate :: "DecCoins \<Rightarrow> LegacyDec \<Rightarrow> DecCoins" where
  "DecCoins_MulDecTruncate coins d =
     removeZeroDecCoins (map (\<lambda>coin. (fst coin, LegacyDec_MulTruncate (snd coin) d)) coins)"

text \<open>\<open>NewDecCoinsFromCoins\<close>: every non-zero whole amount as a decimal.\<close>

definition NewDecCoinsFromCoins :: "Coins \<Rightarrow> DecCoins" where
  "NewDecCoinsFromCoins coins =
     map (\<lambda>coin. (fst coin, LegacyNewDec (snd coin))) (removeZeroDecCoins coins)"

text \<open>
  \<open>DecCoins.TruncateDecimal\<close> splits every amount into its whole part (a \<open>Coin\<close>) and
  the change, and leaves zero parts out. \<open>NewCoin\<close> and \<open>NewDecCoinFromDec\<close> panic on
  a negative amount, so a list with a negative amount panics.
\<close>

definition DecCoins_TruncateDecimal :: "DecCoins \<Rightarrow> (Coins \<times> DecCoins) exec" where
  "DecCoins_TruncateDecimal coins =
     (if IsAnyNegative coins then Panic NegativeCoinAmount
      else Return
        (removeZeroDecCoins (map (\<lambda>coin. (fst coin, LegacyDec_TruncateInt (snd coin))) coins),
         removeZeroDecCoins
           (map (\<lambda>coin. (fst coin, snd coin - LegacyNewDec (LegacyDec_TruncateInt (snd coin))))
              coins)))"

subsection \<open>The keeper's collaborators and its state\<close>

type_synonym bytes = "8 word list"

type_synonym int64 = "64 word"

text \<open>
  The three module accounts the file names: \<open>k.feeCollectorName\<close>, \<open>types.ModuleName\<close>
  (the distribution module) and \<open>protocolpooltypes.ModuleName\<close> (the community fund).
\<close>

datatype module = FeeCollector | Distribution | ProtocolPool

text \<open>\<open>stakingtypes.ValidatorI\<close>, by the two getters the file calls.\<close>

record ValidatorI =
  GetOperator :: string
  GetCommission :: LegacyDec

text \<open>\<open>comet.VoteInfo\<close> and its \<open>Validator\<close> field.\<close>

record comet_Validator =
  Address :: bytes
  Power :: int64

record VoteInfo =
  Validator :: comet_Validator

text \<open>
  \<open>types.ValidatorCurrentRewards\<close>. \<open>types.ValidatorAccumulatedCommission\<close>,
  \<open>types.ValidatorOutstandingRewards\<close> and \<open>types.FeePool\<close> have one field each
  (\<open>Commission\<close>, \<open>Rewards\<close>, \<open>DecimalPool\<close>) and are modelled by that field.
\<close>

record ValidatorCurrentRewards =
  Rewards :: DecCoins
  Period :: "64 word"

datatype EventType = EventTypeCommission | EventTypeRewards

text \<open>An event: its type, the amount attribute and the validator attribute.\<close>

datatype Event = NewEvent EventType DecCoins string

text \<open>
  Modelled from the spec: the collaborators of its section 6 (none is in the source file).
  What \<open>ctx\<close> gives access to: the bank's balances of the module accounts, the transfers
  the bank has made (a log, kept to speak about the calls), the keeper's collections and
  the event manager's events. A collection is a map; a key that was never set reads as
  \<open>ErrNotFound\<close> ("not found is a distinguishable, non-fatal condition"), which is the
  only read error of the model, and a \<open>Set\<close> does not fail.
\<close>

record State =
  bank :: "module \<Rightarrow> Coins"
  sent :: "(module \<times> module \<times> Coins) list"
  FeePool :: "DecCoins option"
  CommunityTax :: "LegacyDec option"
  ValidatorsAccumulatedCommission :: "bytes \<rightharpoonup> DecCoins"
  ValidatorCurrentRewards :: "bytes \<rightharpoonup> ValidatorCurrentRewards"
  ValidatorOutstandingRewards :: "bytes \<rightharpoonup> DecCoins"
  events :: "Event list"

text \<open>
  The staking keeper, by the two calls the file makes: the validator of a consensus
  address and the codec of operator addresses. Neither reads the state above.
\<close>

record Keeper =
  ValidatorByConsAddr :: "bytes \<Rightarrow> error + ValidatorI"
  StringToBytes :: "string \<Rightarrow> error + bytes"

text \<open>
  \<open>collections.Map.Get\<close> and \<open>collections.Item.Get\<close> as Go returns them: the value
  (the zero value on an error) and the error.
\<close>

definition Map_Get :: "'v \<Rightarrow> ('k \<rightharpoonup> 'v) \<Rightarrow> 'k \<Rightarrow> 'v \<times> error option" where
  "Map_Get zero m key = (case m key of None \<Rightarrow> (zero, Some ErrNotFound) | Some v \<Rightarrow> (v, None))"

definition Item_Get :: "'v option \<Rightarrow> error + 'v" where
  "Item_Get item = (case item of None \<Rightarrow> Inl ErrNotFound | Some v \<Rightarrow> Inr v)"

definition GetCommunityTax :: "State \<Rightarrow> error + LegacyDec" where
  "GetCommunityTax s = Item_Get (CommunityTax s)"

definition EmitEvent :: "Event \<Rightarrow> State \<Rightarrow> State" where
  "EmitEvent e s = s\<lparr>events := events s @ [e]\<rparr>"

text \<open>
  Modelled from the spec: the transfers between module accounts, which return an error
  (x/bank is not in the source file). \<open>Coins.IsValid\<close>: sorted by denomination, every
  amount positive. \<open>SendCoinsFromModuleToModule\<close> refuses invalid coins and an amount
  the sender does not hold; otherwise it moves the coins and is logged.
\<close>

definition GetAllBalances :: "State \<Rightarrow> module \<Rightarrow> Coins" where
  "GetAllBalances s m = bank s m"

definition Coins_IsValid :: "Coins \<Rightarrow> bool" where
  "Coins_IsValid coins = (sorted_wrt (<) (map fst coins) \<and> list_all (\<lambda>coin. 0 < snd coin) coins)"

definition SendCoinsFromModuleToModule ::
    "module \<Rightarrow> module \<Rightarrow> Coins \<Rightarrow> State \<Rightarrow> error + State" where
  "SendCoinsFromModuleToModule senderModule recipientModule amt s =
     (if \<not> Coins_IsValid amt then Inl ErrInvalidCoins
      else if \<not> list_all (\<lambda>coin. snd coin \<le> AmountOf (bank s senderModule) (fst coin)) amt
      then Inl ErrInsufficientFunds
      else Inr (s\<lparr>bank := (bank s)
                    (senderModule := safeAdd (bank s senderModule) (negative amt),
                     recipientModule := safeAdd (bank s recipientModule) amt),
                  sent := sent s @ [(senderModule, recipientModule, amt)]\<rparr>))"

subsection \<open>AllocateTokensToValidator (lines 106-165)\<close>

definition AllocateTokensToValidator ::
    "Keeper \<Rightarrow> ValidatorI \<Rightarrow> DecCoins \<Rightarrow> State \<Rightarrow> (error option \<times> State) exec" where
  "AllocateTokensToValidator k val tokens s =
     (let commission = DecCoins_MulDec tokens (GetCommission val) in
      case DecCoins_Sub tokens commission of
        Panic p \<Rightarrow> Panic p
      | Return shared \<Rightarrow>
     (case StringToBytes k (GetOperator val) of
        Inl err \<Rightarrow> Return (Some err, s)
      | Inr valBz \<Rightarrow>
     (let s1 = EmitEvent (NewEvent EventTypeCommission commission (GetOperator val)) s;
          (currentCommission, err) = Map_Get [] (ValidatorsAccumulatedCommission s1) valBz
      in if err \<noteq> None \<and> err \<noteq> Some ErrNotFound then Return (err, s1)
      else
      let s2 = s1\<lparr>ValidatorsAccumulatedCommission :=
                    (ValidatorsAccumulatedCommission s1)
                      (valBz \<mapsto> safeAdd currentCommission commission)\<rparr>;
          (currentRewards, err) =
             Map_Get \<lparr>Rewards = [], Period = 0\<rparr> (ValidatorCurrentRewards s2) valBz
      in if err \<noteq> None \<and> err \<noteq> Some ErrNotFound then Return (err, s2)
      else
      let s3 = s2\<lparr>ValidatorCurrentRewards :=
                    (ValidatorCurrentRewards s2)
                      (valBz \<mapsto> currentRewards\<lparr>Rewards := safeAdd (Rewards currentRewards) shared\<rparr>)\<rparr>;
          s4 = EmitEvent (NewEvent EventTypeRewards tokens (GetOperator val)) s3;
          (outstanding, err) = Map_Get [] (ValidatorOutstandingRewards s4) valBz
      in if err \<noteq> None \<and> err \<noteq> Some ErrNotFound then Return (err, s4)
      else Return (None, s4\<lparr>ValidatorOutstandingRewards :=
                              (ValidatorOutstandingRewards s4)
                                (valBz \<mapsto> safeAdd outstanding tokens)\<rparr>))))"

subsection \<open>AllocateTokens (lines 21-102)\<close>

text \<open>
  The body of the goroutine started for one vote (lines 63-78). Its result is the error it
  returns, the state it leaves and the reward it sent on \<open>remainingCh\<close>, if it got that
  far.
\<close>

definition voteTask ::
    "Keeper \<Rightarrow> int64 \<Rightarrow> DecCoins \<Rightarrow> VoteInfo \<Rightarrow> State
      \<Rightarrow> (error option \<times> State \<times> DecCoins option) exec" where
  "voteTask k totalPreviousPower feeMultiplier vote s =
     (case ValidatorByConsAddr k (Address (Validator vote)) of
        Inl err \<Rightarrow> Return (Some err, s, None)
      | Inr validator \<Rightarrow>
     (case LegacyDec_QuoTruncate (LegacyNewDec (sint (Power (Validator vote))))
                                 (LegacyNewDec (sint totalPreviousPower)) of
        Panic p \<Rightarrow> Panic p
      | Return powerFraction \<Rightarrow>
     (let reward = DecCoins_MulDecTruncate feeMultiplier powerFraction in
      case AllocateTokensToValidator k validator reward s of
        Panic p \<Rightarrow> Panic p
      | Return (Some err, s') \<Rightarrow> Return (Some err, s', None)
      | Return (None, s') \<Rightarrow> Return (None, s', Some reward))))"

text \<open>
  The errgroup (lines 56-83). The group has no context and no limit: every task is started
  and runs to its end whatever the others return, and \<open>Wait\<close> gives the first error. The
  tasks are run one after the other in the order of the votes; a panic of a task ends the
  program. The third component is the content of \<open>remainingCh\<close>.
\<close>

fun runTasks ::
    "Keeper \<Rightarrow> int64 \<Rightarrow> DecCoins \<Rightarrow> VoteInfo list \<Rightarrow> State
      \<Rightarrow> (error option \<times> State \<times> DecCoins list) exec" where
  "runTasks k totalPreviousPower feeMultiplier [] s = Return (None, s, [])"
| "runTasks k totalPreviousPower feeMultiplier (vote # votes) s =
     (case voteTask k totalPreviousPower feeMultiplier vote s of
        Panic p \<Rightarrow> Panic p
      | Return (err, s', reward) \<Rightarrow>
     (case runTasks k totalPreviousPower feeMultiplier votes s' of
        Panic p \<Rightarrow> Panic p
      | Return (err', s'', remainingCh) \<Rightarrow>
          Return (case err of Some e \<Rightarrow> Some e | None \<Rightarrow> err',
                  s'',
                  case reward of Some r \<Rightarrow> r # remainingCh | None \<Rightarrow> remainingCh)))"

text \<open>The loop over \<open>remainingCh\<close> (lines 87-89).\<close>

fun subtractRewards :: "DecCoins \<Rightarrow> DecCoins list \<Rightarrow> DecCoins exec" where
  "subtractRewards remaining [] = Return remaining"
| "subtractRewards remaining (reward # remainingCh) =
     (case DecCoins_Sub remaining reward of
        Panic p \<Rightarrow> Panic p
      | Return remaining' \<Rightarrow> subtractRewards remaining' remainingCh)"

definition AllocateTokens ::
    "Keeper \<Rightarrow> int64 \<Rightarrow> VoteInfo list \<Rightarrow> State \<Rightarrow> (error option \<times> State) exec" where
  "AllocateTokens k totalPreviousPower bondedVotes s =
     (let feesCollectedInt = GetAllBalances s FeeCollector;
          feesCollected = NewDecCoinsFromCoins feesCollectedInt in
      case SendCoinsFromModuleToModule FeeCollector Distribution feesCollectedInt s of
        Inl err \<Rightarrow> Return (Some err, s)
      | Inr s1 \<Rightarrow>
     (case Item_Get (FeePool s1) of
        Inl err \<Rightarrow> Return (Some err, s1)
      | Inr feePool \<Rightarrow>
     (let s2 = (if totalPreviousPower = 0
                then s1\<lparr>FeePool := Some (safeAdd feePool feesCollected)\<rparr>
                else s1);
          remaining = feesCollected in
      case GetCommunityTax s2 of
        Inl err \<Rightarrow> Return (Some err, s2)
      | Inr communityTax \<Rightarrow>
     (let voteMultiplier = LegacyOneDec - communityTax;
          feeMultiplier = DecCoins_MulDecTruncate feesCollected voteMultiplier in
      case runTasks k totalPreviousPower feeMultiplier bondedVotes s2 of
        Panic p \<Rightarrow> Panic p
      | Return (Some err, s3, remainingCh) \<Rightarrow> Return (Some err, s3)
      | Return (None, s3, remainingCh) \<Rightarrow>
     (case subtractRewards remaining remainingCh of
        Panic p \<Rightarrow> Panic p
      | Return remaining' \<Rightarrow>
     (case DecCoins_TruncateDecimal remaining' of
        Panic p \<Rightarrow> Panic p
      | Return (amt, re) \<Rightarrow>
     (case SendCoinsFromModuleToModule Distribution ProtocolPool amt s3 of
        Inl err \<Rightarrow> Return (Some err, s3)
      | Inr s4 \<Rightarrow> Return (None, s4\<lparr>FeePool := Some (safeAdd feePool re)\<rparr>))))))))"

subsection \<open>SendDecimalPoolToCommunityPool (lines 169-185)\<close>

definition SendDecimalPoolToCommunityPool :: "State \<Rightarrow> (error option \<times> State) exec" where
  "SendDecimalPoolToCommunityPool s =
     (case Item_Get (FeePool s) of
        Inl err \<Rightarrow> Return (Some err, s)
      | Inr feePool \<Rightarrow>
          if DecCoins_IsZero feePool then Return (None, s)
          else
     (case DecCoins_TruncateDecimal feePool of
        Panic p \<Rightarrow> Panic p
      | Return (amt, re) \<Rightarrow>
     (case SendCoinsFromModuleToModule Distribution ProtocolPool amt s of
        Inl err \<Rightarrow> Return (Some err, s)
      | Inr s1 \<Rightarrow> Return (None, s1\<lparr>FeePool := Some re\<rparr>))))"

subsection \<open>Well-formed coins and states, and what the properties observe\<close>

text \<open>
  The invariant of the coin types: denominations strictly increasing, no zero amount.
  \<open>nonNegative\<close> is the invariant of a balance or of a reward.
\<close>

definition sortedDenoms :: "DecCoins \<Rightarrow> bool" where
  "sortedDenoms coins = sorted_wrt (<) (map fst coins)"

definition validCoins :: "DecCoins \<Rightarrow> bool" where
  "validCoins coins = (sortedDenoms coins \<and> list_all (\<lambda>coin. snd coin \<noteq> 0) coins)"

definition nonNegative :: "DecCoins \<Rightarrow> bool" where
  "nonNegative coins = list_all (\<lambda>coin. 0 \<le> snd coin) coins"

text \<open>Every coin list of a state is well formed.\<close>

definition wfState :: "State \<Rightarrow> bool" where
  "wfState s \<longleftrightarrow>
     (\<forall>m. validCoins (bank s m)) \<and>
     (\<forall>pool. FeePool s = Some pool \<longrightarrow> validCoins pool) \<and>
     (\<forall>key c. ValidatorsAccumulatedCommission s key = Some c \<longrightarrow> validCoins c) \<and>
     (\<forall>key r. ValidatorCurrentRewards s key = Some r \<longrightarrow> validCoins (Rewards r)) \<and>
     (\<forall>key c. ValidatorOutstandingRewards s key = Some c \<longrightarrow> validCoins c)"

text \<open>The records of a validator, an absent record read as zero, and the pool.\<close>

definition commissionOf :: "State \<Rightarrow> bytes \<Rightarrow> DecCoins" where
  "commissionOf s key = (case ValidatorsAccumulatedCommission s key of None \<Rightarrow> [] | Some c \<Rightarrow> c)"

definition currentRewardsOf :: "State \<Rightarrow> bytes \<Rightarrow> DecCoins" where
  "currentRewardsOf s key = (case ValidatorCurrentRewards s key of None \<Rightarrow> [] | Some r \<Rightarrow> Rewards r)"

definition outstandingOf :: "State \<Rightarrow> bytes \<Rightarrow> DecCoins" where
  "outstandingOf s key = (case ValidatorOutstandingRewards s key of None \<Rightarrow> [] | Some c \<Rightarrow> c)"

definition DecimalPool :: "State \<Rightarrow> DecCoins" where
  "DecimalPool s = (case FeePool s of None \<Rightarrow> [] | Some pool \<Rightarrow> pool)"

text \<open>
  What a call of \<open>AllocateTokensToValidator\<close> that gets past the codec does to the state:
  the two events and the three records of the key.
\<close>

definition credit :: "bytes \<Rightarrow> string \<Rightarrow> DecCoins \<Rightarrow> DecCoins \<Rightarrow> DecCoins \<Rightarrow> State \<Rightarrow> State" where
  "credit valBz operator commission shared tokens s =
     s\<lparr>ValidatorsAccumulatedCommission :=
         (ValidatorsAccumulatedCommission s)(valBz \<mapsto> safeAdd (commissionOf s valBz) commission),
       ValidatorCurrentRewards :=
         (ValidatorCurrentRewards s)
           (valBz \<mapsto> (case ValidatorCurrentRewards s valBz of
                        None \<Rightarrow> \<lparr>Rewards = [], Period = 0\<rparr> | Some r \<Rightarrow> r)
                     \<lparr>Rewards := safeAdd (currentRewardsOf s valBz) shared\<rparr>),
       ValidatorOutstandingRewards :=
         (ValidatorOutstandingRewards s)(valBz \<mapsto> safeAdd (outstandingOf s valBz) tokens),
       events := events s @ [NewEvent EventTypeCommission commission operator,
                             NewEvent EventTypeRewards tokens operator]\<rparr>"

text \<open>
  What the task of a vote does is decided by the vote, the keeper, the total power and the
  fee multiplier alone, not by the state: it panics, it returns an error before it has
  written anything, or it credits a validator.
\<close>

datatype taskResult =
    TaskPanic panic
  | TaskError error
  | TaskCredit bytes string DecCoins DecCoins DecCoins

definition taskPlan :: "Keeper \<Rightarrow> int64 \<Rightarrow> DecCoins \<Rightarrow> VoteInfo \<Rightarrow> taskResult" where
  "taskPlan k totalPreviousPower feeMultiplier vote =
     (case ValidatorByConsAddr k (Address (Validator vote)) of
        Inl err \<Rightarrow> TaskError err
      | Inr validator \<Rightarrow>
     (case LegacyDec_QuoTruncate (LegacyNewDec (sint (Power (Validator vote))))
                                 (LegacyNewDec (sint totalPreviousPower)) of
        Panic p \<Rightarrow> TaskPanic p
      | Return powerFraction \<Rightarrow>
     (let reward = DecCoins_MulDecTruncate feeMultiplier powerFraction;
          commission = DecCoins_MulDec reward (GetCommission validator) in
      case DecCoins_Sub reward commission of
        Panic p \<Rightarrow> TaskPanic p
      | Return shared \<Rightarrow>
     (case StringToBytes k (GetOperator validator) of
        Inl err \<Rightarrow> TaskError err
      | Inr valBz \<Rightarrow> TaskCredit valBz (GetOperator validator) commission shared reward))))"

fun applyPlan :: "taskResult \<Rightarrow> State \<Rightarrow> State" where
  "applyPlan (TaskCredit valBz operator commission shared tokens) s =
     credit valBz operator commission shared tokens s"
| "applyPlan (TaskPanic p) s = s"
| "applyPlan (TaskError err) s = s"

fun plannedPanic :: "taskResult list \<Rightarrow> panic option" where
  "plannedPanic [] = None"
| "plannedPanic (TaskPanic p # plans) = Some p"
| "plannedPanic (plan # plans) = plannedPanic plans"

fun plannedError :: "taskResult list \<Rightarrow> error option" where
  "plannedError [] = None"
| "plannedError (TaskError err # plans) = Some err"
| "plannedError (plan # plans) = plannedError plans"

fun plannedRewards :: "taskResult list \<Rightarrow> DecCoins list" where
  "plannedRewards [] = []"
| "plannedRewards (TaskCredit valBz operator commission shared tokens # plans) =
     tokens # plannedRewards plans"
| "plannedRewards (plan # plans) = plannedRewards plans"

fun wfPlan :: "taskResult \<Rightarrow> bool" where
  "wfPlan (TaskCredit valBz operator commission shared tokens) \<longleftrightarrow>
     validCoins commission \<and> validCoins shared \<and> validCoins tokens"
| "wfPlan (TaskPanic p) \<longleftrightarrow> True"
| "wfPlan (TaskError err) \<longleftrightarrow> True"


subsection \<open>A concrete keeper and concrete states\<close>

text \<open>
  Two validators with a commission rate of 10 percent and a third whose operator address
  the codec refuses; a state with no record and no balance; and the state of the example
  cycle: 100 \<open>uatom\<close> of fees, a community tax of 2 percent, an empty pool.
\<close>

definition validatorA :: ValidatorI where
  "validatorA = \<lparr>GetOperator = ''valoperA'', GetCommission = 10 ^ 17\<rparr>"

definition validatorB :: ValidatorI where
  "validatorB = \<lparr>GetOperator = ''valoperB'', GetCommission = 10 ^ 17\<rparr>"

definition validatorBad :: ValidatorI where
  "validatorBad = \<lparr>GetOperator = ''notbech32'', GetCommission = 10 ^ 17\<rparr>"

definition exampleKeeper :: Keeper where
  "exampleKeeper =
     \<lparr>ValidatorByConsAddr =
        (\<lambda>addr. if addr = [1] then Inr validatorA
                else if addr = [2] then Inr validatorB
                else if addr = [3] then Inr validatorBad
                else Inl ErrNoValidatorFound),
      StringToBytes =
        (\<lambda>operator. if operator = ''valoperA'' then Inr [10]
                    else if operator = ''valoperB'' then Inr [11]
                    else Inl (ErrInvalidAddress operator))\<rparr>"

definition emptyState :: State where
  "emptyState =
     \<lparr>bank = (\<lambda>m. []), sent = [], FeePool = Some [], CommunityTax = Some (2 * 10 ^ 16),
      ValidatorsAccumulatedCommission = Map.empty, ValidatorCurrentRewards = Map.empty,
      ValidatorOutstandingRewards = Map.empty, events = []\<rparr>"

definition feesState :: State where
  "feesState = emptyState\<lparr>bank := (\<lambda>m. [])(FeeCollector := [(''uatom'', 100)])\<rparr>"

text \<open>A pool of 1.999999 \<open>uatom\<close>, the distribution account holding 5 \<open>uatom\<close>.\<close>

definition flushState :: State where
  "flushState =
     emptyState\<lparr>bank := (\<lambda>m. [])(Distribution := [(''uatom'', 5)]),
                FeePool := Some [(''uatom'', 1999999000000000000)]\<rparr>"

definition voteOf :: "bytes \<Rightarrow> int64 \<Rightarrow> VoteInfo" where
  "voteOf addr pw = \<lparr>Validator = \<lparr>Address = addr, Power = pw\<rparr>\<rparr>"

text \<open>
  The example cycle: a total power of 100, validator A with power 70 and validator B with
  power 30; and the state it ends in: 68.6 and 29.4 \<open>uatom\<close> outstanding, 2 \<open>uatom\<close>
  in the community fund, nothing added to the pool.
\<close>

definition exampleVotes :: "VoteInfo list" where
  "exampleVotes = [voteOf [1] 70, voteOf [2] 30]"

definition exampleAfterFees :: State where
  "exampleAfterFees =
     feesState\<lparr>bank := (\<lambda>m. [])(FeeCollector := [], Distribution := [(''uatom'', 100)]),
                sent := [(FeeCollector, Distribution, [(''uatom'', 100)])]\<rparr>"

definition examplePlans :: "taskResult list" where
  "examplePlans =
     [TaskCredit [10] ''valoperA'' [(''uatom'', 6860000000000000000)]
        [(''uatom'', 61740000000000000000)] [(''uatom'', 68600000000000000000)],
      TaskCredit [11] ''valoperB'' [(''uatom'', 2940000000000000000)]
        [(''uatom'', 26460000000000000000)] [(''uatom'', 29400000000000000000)]]"

definition exampleFinal :: State where
  "exampleFinal =
     (fold applyPlan examplePlans exampleAfterFees)
       \<lparr>bank := (\<lambda>m. [])(FeeCollector := [], Distribution := [(''uatom'', 98)],
                          ProtocolPool := [(''uatom'', 2)]),
        sent := [(FeeCollector, Distribution, [(''uatom'', 100)]),
                 (Distribution, ProtocolPool, [(''uatom'', 2)])],
        FeePool := Some []\<rparr>"

text \<open>
  The state a cycle with a total power of zero and no vote ends in, from \<open>feesState\<close>:
  the fees are in the community fund and the pool is what it was.
\<close>

definition zeroPowerFinal :: State where
  "zeroPowerFinal =
     feesState\<lparr>bank := (\<lambda>m. [])(FeeCollector := [], Distribution := [],
                               ProtocolPool := [(''uatom'', 100)]),
                sent := [(FeeCollector, Distribution, [(''uatom'', 100)]),
                         (Distribution, ProtocolPool, [(''uatom'', 100)])],
                FeePool := Some []\<rparr>"







text \<open>
  The store keys of the validators voted for, each once: the validators of the votes that
  the staking keeper finds and whose operator address the codec encodes.
\<close>

definition voteKey :: "Keeper \<Rightarrow> VoteInfo \<Rightarrow> bytes list" where
  "voteKey k vote =
     (case ValidatorByConsAddr k (Address (Validator vote)) of
        Inl err \<Rightarrow> []
      | Inr validator \<Rightarrow>
          (case StringToBytes k (GetOperator validator) of
             Inl err \<Rightarrow> []
           | Inr valBz \<Rightarrow> [valBz]))"

definition votedValidators :: "Keeper \<Rightarrow> VoteInfo list \<Rightarrow> bytes list" where
  "votedValidators k votes = remdups (concat (map (voteKey k) votes))"

text \<open>What a plan adds to the outstanding rewards of a key, in a denomination.\<close>

fun creditedTo :: "bytes \<Rightarrow> string \<Rightarrow> taskResult \<Rightarrow> int" where
  "creditedTo key denom (TaskCredit valBz operator commission shared tokens) =
     (if valBz = key then AmountOf tokens denom else 0)"
| "creditedTo key denom (TaskPanic p) = 0"
| "creditedTo key denom (TaskError err) = 0"

section \<open>Properties of the coin operations\<close>

lemma AmountOf_Nil [simp]: "AmountOf [] d = 0"
  by (simp add: AmountOf_def)

lemma AmountOf_Cons [simp]:
  "AmountOf ((dn, a) # cs) d = (if d = dn then a else AmountOf cs d)"
  by (simp add: AmountOf_def)

lemma AmountOf_notin: "d \<notin> fst ` set cs \<Longrightarrow> AmountOf cs d = 0"
  by (induction cs) auto

lemma sortedDenoms_Nil [simp]: "sortedDenoms []"
  by (simp add: sortedDenoms_def)

lemma sortedDenoms_Cons [simp]:
  "sortedDenoms ((dn, a) # cs) \<longleftrightarrow> (\<forall>x \<in> fst ` set cs. dn < x) \<and> sortedDenoms cs"
  by (auto simp add: sortedDenoms_def)

lemma denoms_removeZero: "fst ` set (removeZeroDecCoins cs) \<subseteq> fst ` set cs"
  by (auto simp add: removeZeroDecCoins_def)

lemma sortedDenoms_removeZero: "sortedDenoms cs \<Longrightarrow> sortedDenoms (removeZeroDecCoins cs)"
  by (simp add: sortedDenoms_def removeZeroDecCoins_def sorted_wrt_map sorted_wrt_filter)

lemma AmountOf_removeZero:
  "sortedDenoms cs \<Longrightarrow> AmountOf (removeZeroDecCoins cs) d = AmountOf cs d"
proof (induction cs)
  case Nil
  then show ?case by (simp add: removeZeroDecCoins_def)
next
  case (Cons c cs)
  obtain dn a where c: "c = (dn, a)" by (cases c)
  have "AmountOf cs dn = 0" using Cons.prems c by (auto intro: AmountOf_notin)
  then show ?case using Cons c by (auto simp add: removeZeroDecCoins_def)
qed

lemma denoms_keepNonZero: "fst ` set (keepNonZero c cs) \<subseteq> insert (fst c) (fst ` set cs)"
  by (auto simp add: keepNonZero_def)

lemma AmountOf_keepNonZero:
  "AmountOf (keepNonZero (dn, a) cs) d = (if d = dn \<and> a \<noteq> 0 then a else AmountOf cs d)"
  by (simp add: keepNonZero_def)

lemma sortedDenoms_keepNonZero:
  "sortedDenoms cs \<Longrightarrow> \<forall>x \<in> fst ` set cs. dn < x \<Longrightarrow> sortedDenoms (keepNonZero (dn, a) cs)"
  by (simp add: keepNonZero_def)

lemma denoms_safeAdd: "fst ` set (safeAdd a b) \<subseteq> fst ` set a \<union> fst ` set b"
proof (induction a b rule: safeAdd.induct)
  case (1 coinsB)
  then show ?case using denoms_removeZero by simp
next
  case (2 coinA restA)
  then show ?case using denoms_removeZero[of "coinA # restA"] by simp
next
  case (3 denomA amtA restA denomB amtB restB)
  consider "denomA < denomB" | "denomA = denomB" | "\<not> denomA < denomB" "denomA \<noteq> denomB"
    by blast
  then show ?case
  proof cases
    case 1
    have "fst ` set (safeAdd ((denomA, amtA) # restA) ((denomB, amtB) # restB))
        \<subseteq> insert denomA (fst ` set (safeAdd restA ((denomB, amtB) # restB)))"
      using 1 denoms_keepNonZero[of "(denomA, amtA)"] by simp
    then show ?thesis using 3(1)[OF 1] by (auto simp del: safeAdd.simps)
  next
    case 2
    have "fst ` set (safeAdd ((denomA, amtA) # restA) ((denomB, amtB) # restB))
        \<subseteq> insert denomA (fst ` set (safeAdd restA restB))"
      using 2 denoms_keepNonZero[of "(denomA, amtA + amtB)"] by simp
    then show ?thesis using 3(2) 2 by (auto simp del: safeAdd.simps)
  next
    case 3
    have "fst ` set (safeAdd ((denomA, amtA) # restA) ((denomB, amtB) # restB))
        \<subseteq> insert denomB (fst ` set (safeAdd ((denomA, amtA) # restA) restB))"
      using 3 denoms_keepNonZero[of "(denomB, amtB)"] by simp
    then show ?thesis using "3.IH"(3) 3 by (auto simp del: safeAdd.simps)
  qed
qed

lemma sortedDenoms_safeAdd:
  "sortedDenoms a \<Longrightarrow> sortedDenoms b \<Longrightarrow> sortedDenoms (safeAdd a b)"
proof (induction a b rule: safeAdd.induct)
  case (1 coinsB)
  then show ?case by (simp add: sortedDenoms_removeZero)
next
  case (2 coinA restA)
  then show ?case using sortedDenoms_removeZero[of "coinA # restA"] by simp
next
  case (3 denomA amtA restA denomB amtB restB)
  consider "denomA < denomB" | "denomA = denomB" | "\<not> denomA < denomB" "denomA \<noteq> denomB"
    by blast
  then show ?case
  proof cases
    case 1
    have "sortedDenoms (safeAdd restA ((denomB, amtB) # restB))"
      using 1 3 by simp
    moreover have "\<forall>x \<in> fst ` set (safeAdd restA ((denomB, amtB) # restB)). denomA < x"
      using denoms_safeAdd[of restA "(denomB, amtB) # restB"] 1 3(4,5) by fastforce
    ultimately show ?thesis using 1 by (simp add: sortedDenoms_keepNonZero)
  next
    case 2
    have "sortedDenoms (safeAdd restA restB)"
      using 2 3 by simp
    moreover have "\<forall>x \<in> fst ` set (safeAdd restA restB). denomA < x"
      using denoms_safeAdd[of restA restB] 2 3(4,5) by fastforce
    ultimately show ?thesis using 2 by (simp add: sortedDenoms_keepNonZero)
  next
    case 3
    then have lt: "denomB < denomA" by auto
    have "sortedDenoms (safeAdd ((denomA, amtA) # restA) restB)"
      using 3 "3.IH"(3) "3.prems" by simp
    moreover have "\<forall>x \<in> fst ` set (safeAdd ((denomA, amtA) # restA) restB). denomB < x"
      using denoms_safeAdd[of "(denomA, amtA) # restA" restB] lt "3.prems" by fastforce
    ultimately show ?thesis using 3 by (simp add: sortedDenoms_keepNonZero)
  qed
qed

lemma AmountOf_safeAdd:
  "sortedDenoms a \<Longrightarrow> sortedDenoms b \<Longrightarrow> AmountOf (safeAdd a b) d = AmountOf a d + AmountOf b d"
proof (induction a b rule: safeAdd.induct)
  case (1 coinsB)
  then show ?case by (simp add: AmountOf_removeZero)
next
  case (2 coinA restA)
  then show ?case using AmountOf_removeZero[of "coinA # restA"] by simp
next
  case (3 denomA amtA restA denomB amtB restB)
  have nA: "AmountOf restA denomA = 0" using "3.prems" by (auto intro: AmountOf_notin)
  have nB: "AmountOf restB denomB = 0" using "3.prems" by (auto intro: AmountOf_notin)
  consider "denomA < denomB" | "denomA = denomB" | "\<not> denomA < denomB" "denomA \<noteq> denomB"
    by blast
  then show ?case
  proof cases
    case 1
    have ih: "AmountOf (safeAdd restA ((denomB, amtB) # restB)) d
        = AmountOf restA d + AmountOf ((denomB, amtB) # restB) d"
      using 1 3 by simp
    have "AmountOf restB denomA = 0" using "3.prems" 1 by (force intro: AmountOf_notin)
    then show ?thesis using 1 ih nA nB by (auto simp add: AmountOf_keepNonZero)
  next
    case 2
    have ih: "AmountOf (safeAdd restA restB) d = AmountOf restA d + AmountOf restB d"
      using 2 3 by simp
    show ?thesis using 2 ih nA nB by (auto simp add: AmountOf_keepNonZero)
  next
    case 3
    then have lt: "denomB < denomA" by auto
    have ih: "AmountOf (safeAdd ((denomA, amtA) # restA) restB) d
        = AmountOf ((denomA, amtA) # restA) d + AmountOf restB d"
      using 3 "3.IH"(3) "3.prems" by simp
    have "AmountOf restA denomB = 0" using "3.prems" lt by (force intro: AmountOf_notin)
    then show ?thesis using 3 ih nA nB by (auto simp add: AmountOf_keepNonZero)
  qed
qed


lemma validCoins_Nil [simp]: "validCoins []"
  by (simp add: validCoins_def)

lemma nonzero_removeZero: "list_all (\<lambda>coin. snd coin \<noteq> 0) (removeZeroDecCoins cs)"
  by (simp add: removeZeroDecCoins_def list_all_iff)

lemma nonzero_keepNonZero:
  "list_all (\<lambda>coin. snd coin \<noteq> 0) cs \<Longrightarrow> list_all (\<lambda>coin. snd coin \<noteq> 0) (keepNonZero c cs)"
  by (simp add: keepNonZero_def)

lemma nonzero_safeAdd: "list_all (\<lambda>coin. snd coin \<noteq> 0) (safeAdd a b)"
  by (induction a b rule: safeAdd.induct)
     (simp_all add: nonzero_removeZero nonzero_keepNonZero del: removeZeroDecCoins_def)

lemma validCoins_safeAdd:
  "sortedDenoms a \<Longrightarrow> sortedDenoms b \<Longrightarrow> validCoins (safeAdd a b)"
  by (simp add: validCoins_def sortedDenoms_safeAdd nonzero_safeAdd)

lemma validCoins_sorted: "validCoins a \<Longrightarrow> sortedDenoms a"
  by (simp add: validCoins_def)

lemma validCoins_Cons:
  "validCoins ((dn, x) # cs) \<longleftrightarrow> x \<noteq> 0 \<and> (\<forall>y \<in> fst ` set cs. dn < y) \<and> validCoins cs"
  by (auto simp add: validCoins_def)

lemma AmountOf_less_head:
  "sortedDenoms ((dn, x) # cs) \<Longrightarrow> d < dn \<Longrightarrow> AmountOf ((dn, x) # cs) d = 0"
  by (force intro: AmountOf_notin)

lemma coins_eqI:
  "validCoins a \<Longrightarrow> validCoins b \<Longrightarrow> (\<And>d. AmountOf a d = AmountOf b d) \<Longrightarrow> a = b"
proof (induction a arbitrary: b)
  case Nil
  show ?case
  proof (cases b)
    case Nil
    then show ?thesis by simp
  next
    case (Cons c cs)
    obtain e y where c: "c = (e, y)" by (cases c)
    have "AmountOf b e = y" using Cons c by simp
    moreover have "y \<noteq> 0" using Nil.prems(2) Cons c by (simp add: validCoins_Cons)
    ultimately show ?thesis using Nil.prems(3)[of e] by simp
  qed
next
  case (Cons p a)
  obtain dn x where p: "p = (dn, x)" by (cases p)
  have x0: "x \<noteq> 0" and va: "validCoins a" and lta: "\<forall>y \<in> fst ` set a. dn < y"
    using Cons.prems(1) p by (simp_all add: validCoins_Cons)
  have sa: "sortedDenoms (p # a)" using Cons.prems(1) by (rule validCoins_sorted)
  show ?case
  proof (cases b)
    case Nil
    then show ?thesis using Cons.prems(3)[of dn] p x0 by simp
  next
    case (Cons c cs)
    obtain e y where c: "c = (e, y)" by (cases c)
    have y0: "y \<noteq> 0" and vcs: "validCoins cs" and ltc: "\<forall>z \<in> fst ` set cs. e < z"
      using Cons.prems(2) Cons c by (simp_all add: validCoins_Cons)
    have sb: "sortedDenoms ((e, y) # cs)" using Cons.prems(2) Cons c validCoins_sorted by blast
    have "\<not> dn < e"
    proof
      assume "dn < e"
      then have "AmountOf b dn = 0" using sb Cons c AmountOf_less_head by blast
      then show False using Cons.prems(3)[of dn] p x0 by simp
    qed
    moreover have "\<not> e < dn"
    proof
      assume "e < dn"
      then have "AmountOf (p # a) e = 0" using sa p AmountOf_less_head by blast
      then show False using Cons.prems(3)[of e] Cons c y0 by simp
    qed
    ultimately have de: "dn = e" by auto
    have xy: "x = y" using Cons.prems(3)[of dn] p Cons c de by simp
    have "a = cs"
    proof (rule Cons.IH[OF va vcs])
      fix d
      show "AmountOf a d = AmountOf cs d"
      proof (cases "d = dn")
        case True
        have "AmountOf a dn = 0" using lta by (auto intro: AmountOf_notin)
        moreover have "AmountOf cs dn = 0" using ltc de by (auto intro: AmountOf_notin)
        ultimately show ?thesis using True by simp
      next
        case False
        then show ?thesis using Cons.prems(3)[of d] p Cons c de by simp
      qed
    qed
    then show ?thesis using p Cons c de xy by simp
  qed
qed

lemma sortedDenoms_negative: "sortedDenoms (negative a) = sortedDenoms a"
  by (simp add: sortedDenoms_def negative_def comp_def)

lemma AmountOf_negative: "AmountOf (negative a) d = - AmountOf a d"
  by (induction a) (auto simp add: negative_def)

lemma sortedDenoms_mapAmounts:
  "sortedDenoms cs \<Longrightarrow> sortedDenoms (map (\<lambda>coin. (fst coin, f (snd coin))) cs)"
  by (simp add: sortedDenoms_def comp_def)

lemma AmountOf_mapAmounts:
  "f 0 = 0 \<Longrightarrow> AmountOf (map (\<lambda>coin. (fst coin, f (snd coin))) cs) d = f (AmountOf cs d)"
  by (induction cs) auto

lemma validCoins_mapNonZero:
  "sortedDenoms cs \<Longrightarrow> validCoins (removeZeroDecCoins (map (\<lambda>coin. (fst coin, f (snd coin))) cs))"
  by (simp add: validCoins_def sortedDenoms_removeZero sortedDenoms_mapAmounts nonzero_removeZero)

lemma AmountOf_mapNonZero:
  "sortedDenoms cs \<Longrightarrow> f 0 = 0 \<Longrightarrow>
   AmountOf (removeZeroDecCoins (map (\<lambda>coin. (fst coin, f (snd coin))) cs)) d = f (AmountOf cs d)"
  by (simp add: AmountOf_removeZero sortedDenoms_mapAmounts AmountOf_mapAmounts)

lemma AmountOf_in:
  "sortedDenoms cs \<Longrightarrow> (dn, x) \<in> set cs \<Longrightarrow> AmountOf cs dn = x"
  by (induction cs) (auto, force)

lemma AmountOf_nonzero_in:
  "AmountOf cs d \<noteq> 0 \<Longrightarrow> (d, AmountOf cs d) \<in> set cs"
  by (induction cs) (auto split: if_splits)

lemma IsAnyNegative_iff:
  "sortedDenoms cs \<Longrightarrow> IsAnyNegative cs \<longleftrightarrow> (\<exists>d. AmountOf cs d < 0)"
proof
  assume s: "sortedDenoms cs" and "IsAnyNegative cs"
  then obtain dn x where "(dn, x) \<in> set cs" "x < 0"
    by (auto simp add: IsAnyNegative_def list_ex_iff)
  then have "AmountOf cs dn < 0" using AmountOf_in[OF s] by simp
  then show "\<exists>d. AmountOf cs d < 0" ..
next
  assume "\<exists>d. AmountOf cs d < 0"
  then obtain d where d: "AmountOf cs d < 0" ..
  then have "(d, AmountOf cs d) \<in> set cs" by (intro AmountOf_nonzero_in) simp
  then show "IsAnyNegative cs" using d by (force simp add: IsAnyNegative_def list_ex_iff)
qed

lemma nonNegative_iff:
  "sortedDenoms cs \<Longrightarrow> nonNegative cs \<longleftrightarrow> (\<forall>d. 0 \<le> AmountOf cs d)"
proof -
  assume s: "sortedDenoms cs"
  have "nonNegative cs \<longleftrightarrow> \<not> IsAnyNegative cs"
    by (auto simp add: nonNegative_def IsAnyNegative_def list_all_iff list_ex_iff not_less)
  then show ?thesis using IsAnyNegative_iff[OF s] by (auto simp add: not_less)
qed

lemma IsZero_valid: "validCoins cs \<Longrightarrow> DecCoins_IsZero cs \<longleftrightarrow> cs = []"
  by (cases cs) (auto simp add: DecCoins_IsZero_def validCoins_def)

lemma AllocateTokensToValidator_eq:
  "AllocateTokensToValidator k val tokens s =
     (case DecCoins_Sub tokens (DecCoins_MulDec tokens (GetCommission val)) of
        Panic p \<Rightarrow> Panic p
      | Return shared \<Rightarrow>
          (case StringToBytes k (GetOperator val) of
             Inl err \<Rightarrow> Return (Some err, s)
           | Inr valBz \<Rightarrow>
               Return (None, credit valBz (GetOperator val)
                               (DecCoins_MulDec tokens (GetCommission val)) shared tokens s)))"
  by (auto simp add: AllocateTokensToValidator_def credit_def Let_def Map_Get_def EmitEvent_def
        commissionOf_def currentRewardsOf_def outstandingOf_def
      split: exec.splits sum.splits option.splits)


subsection \<open>Rounding and truncation\<close>

lemma precisionReuse_pos: "0 < precisionReuse"
  by (simp add: precisionReuse_def)

lemma chopPrecisionAndTruncate_nonneg:
  "0 \<le> x \<Longrightarrow> chopPrecisionAndTruncate x = x div precisionReuse"
  using precisionReuse_pos
  by (cases "x = 0") (simp_all add: chopPrecisionAndTruncate_def Quo_def)

lemma chopPrecisionAndTruncate_0 [simp]: "chopPrecisionAndTruncate 0 = 0"
  by (simp add: chopPrecisionAndTruncate_def Quo_def)

lemma chopPrecisionAndRound_0 [simp]: "chopPrecisionAndRound 0 = 0"
  by (simp add: chopPrecisionAndRound_def)

lemma LegacyDec_Mul_0 [simp]: "LegacyDec_Mul 0 d = 0"
  by (simp add: LegacyDec_Mul_def)

lemma LegacyDec_MulTruncate_0 [simp]: "LegacyDec_MulTruncate 0 d = 0"
  by (simp add: LegacyDec_MulTruncate_def)

lemma LegacyDec_TruncateInt_0 [simp]: "LegacyDec_TruncateInt 0 = 0"
  by (simp add: LegacyDec_TruncateInt_def)

lemma chopPrecisionAndRound_nonneg:
  "0 \<le> x \<Longrightarrow> chopPrecisionAndRound x = x div precisionReuse \<or>
                chopPrecisionAndRound x = x div precisionReuse + 1 \<and> fivePrecision \<le> x mod precisionReuse"
  by (auto simp add: chopPrecisionAndRound_def Let_def)

lemma round_between:
  assumes "0 \<le> x"
  shows "chopPrecisionAndTruncate x \<le> chopPrecisionAndRound x"
    and "chopPrecisionAndRound x \<le> chopPrecisionAndTruncate x + 1"
  using chopPrecisionAndRound_nonneg[OF assms] chopPrecisionAndTruncate_nonneg[OF assms]
  by auto

lemma round_le:
  assumes t: "0 \<le> t" and c: "0 \<le> c" "c \<le> precisionReuse"
  shows "0 \<le> chopPrecisionAndRound (t * c)" and "chopPrecisionAndRound (t * c) \<le> t"
proof -
  have x: "0 \<le> t * c" using t c by simp
  have le: "t * c \<le> t * precisionReuse" using t c by (simp add: mult_left_mono)
  have d: "(t * c) div precisionReuse \<le> t"
    using zdiv_mono1[OF le precisionReuse_pos] precisionReuse_pos by simp
  show "0 \<le> chopPrecisionAndRound (t * c)"
    using chopPrecisionAndRound_nonneg[OF x] x precisionReuse_pos
    by (auto simp add: pos_imp_zdiv_nonneg_iff)
  show "chopPrecisionAndRound (t * c) \<le> t"
  proof (cases "chopPrecisionAndRound (t * c) = (t * c) div precisionReuse")
    case True
    then show ?thesis using d by simp
  next
    case False
    then have r: "chopPrecisionAndRound (t * c) = (t * c) div precisionReuse + 1"
      and m: "fivePrecision \<le> (t * c) mod precisionReuse"
      using chopPrecisionAndRound_nonneg[OF x] by auto
    have "(t * c) div precisionReuse < t"
    proof (rule ccontr)
      assume "\<not> (t * c) div precisionReuse < t"
      then have eq: "(t * c) div precisionReuse = t" using d by simp
      have "t * c = precisionReuse * ((t * c) div precisionReuse) + (t * c) mod precisionReuse"
        by simp
      then have "t * c = precisionReuse * t + (t * c) mod precisionReuse" using eq by simp
      moreover have "0 < (t * c) mod precisionReuse"
        using m by (simp add: fivePrecision_def)
      ultimately have "t * precisionReuse < t * c" by (simp add: mult.commute)
      then show False using le by simp
    qed
    then show ?thesis using r by simp
  qed
qed

lemma TruncateInt_nonneg:
  assumes "0 \<le> a"
  shows "0 \<le> LegacyDec_TruncateInt a"
    and "0 \<le> a - LegacyNewDec (LegacyDec_TruncateInt a)"
    and "a - LegacyNewDec (LegacyDec_TruncateInt a) < precisionReuse"
    and "LegacyDec_TruncateInt a = a div precisionReuse"
    and "a - LegacyNewDec (LegacyDec_TruncateInt a) = a mod precisionReuse"
proof -
  have t: "LegacyDec_TruncateInt a = a div precisionReuse"
    using assms by (simp add: LegacyDec_TruncateInt_def chopPrecisionAndTruncate_nonneg)
  then show "LegacyDec_TruncateInt a = a div precisionReuse" .
  show "0 \<le> LegacyDec_TruncateInt a"
    using t assms precisionReuse_pos by (simp add: pos_imp_zdiv_nonneg_iff)
  have m: "a - LegacyNewDec (LegacyDec_TruncateInt a) = a mod precisionReuse"
    unfolding t LegacyNewDec_def by (simp add: minus_div_mult_eq_mod)
  then show "a - LegacyNewDec (LegacyDec_TruncateInt a) = a mod precisionReuse" .
  show "0 \<le> a - LegacyNewDec (LegacyDec_TruncateInt a)"
    using m precisionReuse_pos by simp
  show "a - LegacyNewDec (LegacyDec_TruncateInt a) < precisionReuse"
    using m precisionReuse_pos by simp
qed

subsection \<open>Subtraction, multiplication and truncation of coins\<close>

lemma DecCoins_Sub_Return:
  assumes "sortedDenoms a" "sortedDenoms b" "DecCoins_Sub a b = Return r"
  shows "validCoins r" and "AmountOf r d = AmountOf a d - AmountOf b d" and "nonNegative r"
proof -
  have r: "r = safeAdd a (negative b)" and nn: "\<not> IsAnyNegative r"
    using assms(3) by (auto simp add: DecCoins_Sub_def Let_def split: if_splits)
  have sb: "sortedDenoms (negative b)" using assms(2) by (simp add: sortedDenoms_negative)
  show v: "validCoins r" unfolding r by (rule validCoins_safeAdd[OF assms(1) sb])
  show "AmountOf r d = AmountOf a d - AmountOf b d"
    unfolding r by (simp add: AmountOf_safeAdd[OF assms(1) sb] AmountOf_negative)
  show "nonNegative r"
    using nn by (auto simp add: nonNegative_def IsAnyNegative_def list_all_iff list_ex_iff not_less)
qed

lemma DecCoins_Sub_iff:
  assumes "sortedDenoms a" "sortedDenoms b"
  shows "(\<exists>r. DecCoins_Sub a b = Return r) \<longleftrightarrow> (\<forall>d. AmountOf b d \<le> AmountOf a d)"
proof -
  have sb: "sortedDenoms (negative b)" using assms(2) by (simp add: sortedDenoms_negative)
  have s: "sortedDenoms (safeAdd a (negative b))" by (rule sortedDenoms_safeAdd[OF assms(1) sb])
  have "(\<exists>r. DecCoins_Sub a b = Return r) \<longleftrightarrow> \<not> IsAnyNegative (safeAdd a (negative b))"
    by (simp add: DecCoins_Sub_def Let_def)
  also have "\<dots> \<longleftrightarrow> (\<forall>d. 0 \<le> AmountOf a d - AmountOf b d)"
    by (simp add: IsAnyNegative_iff[OF s] AmountOf_safeAdd[OF assms(1) sb] AmountOf_negative not_less)
  finally show ?thesis by simp
qed


lemma validCoins_MulDec: "sortedDenoms a \<Longrightarrow> validCoins (DecCoins_MulDec a c)"
  unfolding DecCoins_MulDec_def by (rule validCoins_mapNonZero)

lemma AmountOf_MulDec:
  "sortedDenoms a \<Longrightarrow> AmountOf (DecCoins_MulDec a c) d = LegacyDec_Mul (AmountOf a d) c"
  unfolding DecCoins_MulDec_def
  by (rule AmountOf_mapNonZero[where f = "\<lambda>x. LegacyDec_Mul x c"]) simp_all

lemma validCoins_MulDecTruncate: "sortedDenoms a \<Longrightarrow> validCoins (DecCoins_MulDecTruncate a c)"
  unfolding DecCoins_MulDecTruncate_def by (rule validCoins_mapNonZero)


lemma TruncateDecimal_Return:
  assumes "sortedDenoms a" "DecCoins_TruncateDecimal a = Return (amt, re)"
  shows "validCoins amt" and "validCoins re"
    and "AmountOf amt d = LegacyDec_TruncateInt (AmountOf a d)"
    and "AmountOf re d = AmountOf a d - LegacyNewDec (LegacyDec_TruncateInt (AmountOf a d))"
    and "0 \<le> AmountOf a d"
proof -
  have nn: "\<not> IsAnyNegative a"
    and amt: "amt = removeZeroDecCoins (map (\<lambda>coin. (fst coin, LegacyDec_TruncateInt (snd coin))) a)"
    and re: "re = removeZeroDecCoins
           (map (\<lambda>coin. (fst coin, snd coin - LegacyNewDec (LegacyDec_TruncateInt (snd coin)))) a)"
    using assms(2) by (auto simp add: DecCoins_TruncateDecimal_def split: if_splits)
  show "validCoins amt" unfolding amt by (rule validCoins_mapNonZero[OF assms(1)])
  show "validCoins re" unfolding re
    by (rule validCoins_mapNonZero[OF assms(1),
          where f = "\<lambda>x. x - LegacyNewDec (LegacyDec_TruncateInt x)"])
  show "AmountOf amt d = LegacyDec_TruncateInt (AmountOf a d)"
    unfolding amt by (rule AmountOf_mapNonZero[OF assms(1)]) simp
  show "AmountOf re d = AmountOf a d - LegacyNewDec (LegacyDec_TruncateInt (AmountOf a d))"
    unfolding re
    by (rule AmountOf_mapNonZero[OF assms(1),
          where f = "\<lambda>x. x - LegacyNewDec (LegacyDec_TruncateInt x)"])
       (simp add: LegacyNewDec_def)
  show "0 \<le> AmountOf a d"
    using nn IsAnyNegative_iff[OF assms(1)] by (auto simp add: not_less)
qed

lemma TruncateDecimal_cases:
  "DecCoins_TruncateDecimal a = Panic NegativeCoinAmount \<or>
   (\<exists>amt re. DecCoins_TruncateDecimal a = Return (amt, re))"
  by (simp add: DecCoins_TruncateDecimal_def)

lemma TruncateDecimal_nonNegative:
  "nonNegative a \<Longrightarrow> \<exists>amt re. DecCoins_TruncateDecimal a = Return (amt, re)"
  by (auto simp add: DecCoins_TruncateDecimal_def nonNegative_def IsAnyNegative_def
        list_all_iff list_ex_iff not_less)

lemma validCoins_NewDecCoinsFromCoins:
  "sortedDenoms a \<Longrightarrow> validCoins (NewDecCoinsFromCoins a)"
  using sortedDenoms_removeZero[of a] nonzero_removeZero[of a]
  by (auto simp add: validCoins_def NewDecCoinsFromCoins_def sortedDenoms_def comp_def
        list_all_iff LegacyNewDec_def precisionReuse_def)

lemma AmountOf_NewDecCoinsFromCoins:
  "sortedDenoms a \<Longrightarrow> AmountOf (NewDecCoinsFromCoins a) d = LegacyNewDec (AmountOf a d)"
  unfolding NewDecCoinsFromCoins_def
  using AmountOf_mapAmounts[of LegacyNewDec "removeZeroDecCoins a" d]
  by (simp add: LegacyNewDec_def AmountOf_removeZero)

subsection \<open>The tasks of the votes\<close>

lemma voteTask_eq:
  "voteTask k P fm vote s =
     (case taskPlan k P fm vote of
        TaskPanic p \<Rightarrow> Panic p
      | TaskError err \<Rightarrow> Return (Some err, s, None)
      | TaskCredit valBz operator commission shared tokens \<Rightarrow>
          Return (None, credit valBz operator commission shared tokens s, Some tokens))"
  by (simp add: voteTask_def taskPlan_def AllocateTokensToValidator_eq Let_def
      split: sum.splits exec.splits)

lemma runTasks_eq:
  "runTasks k P fm votes s =
     (case plannedPanic (map (taskPlan k P fm) votes) of
        Some p \<Rightarrow> Panic p
      | None \<Rightarrow> Return (plannedError (map (taskPlan k P fm) votes),
                        fold applyPlan (map (taskPlan k P fm) votes) s,
                        plannedRewards (map (taskPlan k P fm) votes)))"
proof (induction votes arbitrary: s)
  case Nil
  then show ?case by simp
next
  case (Cons vote votes)
  show ?case
    by (cases "taskPlan k P fm vote")
       (simp_all add: voteTask_eq Cons.IH split: option.splits)
qed

subsection \<open>AllocateTokensToValidator\<close>

lemmas dec_defs = precisionReuse_def fivePrecision_def Quo_def chopPrecisionAndTruncate_def
  chopPrecisionAndRound_def LegacyNewDec_def LegacyOneDec_def LegacyDec_Mul_def
  LegacyDec_MulTruncate_def LegacyDec_QuoTruncate_def LegacyDec_TruncateInt_def

lemmas coin_defs = removeZeroDecCoins_def keepNonZero_def negative_def IsAnyNegative_def
  DecCoins_Sub_def DecCoins_IsZero_def DecCoins_MulDec_def
  DecCoins_MulDecTruncate_def NewDecCoinsFromCoins_def DecCoins_TruncateDecimal_def

lemmas example_defs = validatorA_def validatorB_def validatorBad_def exampleKeeper_def
  emptyState_def feesState_def voteOf_def

lemma Sub_commission_Return:
  assumes "sortedDenoms tokens" "nonNegative tokens" "0 \<le> c" "c \<le> LegacyOneDec"
  shows "\<exists>shared. DecCoins_Sub tokens (DecCoins_MulDec tokens c) = Return shared"
proof -
  have s: "sortedDenoms (DecCoins_MulDec tokens c)"
    using validCoins_MulDec[OF assms(1)] validCoins_sorted by blast
  have "AmountOf (DecCoins_MulDec tokens c) d \<le> AmountOf tokens d" for d
  proof -
    have "0 \<le> AmountOf tokens d" using assms(1,2) nonNegative_iff by blast
    then show ?thesis
      using round_le(2)[of "AmountOf tokens d" c] assms(3,4)
      by (simp add: AmountOf_MulDec[OF assms(1)] LegacyDec_Mul_def LegacyOneDec_def)
  qed
  then show ?thesis using DecCoins_Sub_iff[OF assms(1) s] by blast
qed

text \<open>
  C10, as the code has it. The codec is called at line 111, after the commission and the
  shared part have been computed at lines 108 and 109. When the codec refuses the operator
  address, \<open>AllocateTokensToValidator\<close> returns the codec's error and the state is the
  one it was called with (no record was read or written and no event was emitted), unless
  the subtraction of line 109 has panicked before the codec was called. It panics exactly
  when a denomination of the reward minus its commission is negative, and it does not for
  a well-formed non-negative reward and a commission rate between 0 and 1.
\<close>

theorem codec_error_leaves_state:
  assumes "StringToBytes k (GetOperator val) = Inl err"
  shows "AllocateTokensToValidator k val tokens s =
           (if IsAnyNegative (safeAdd tokens (negative (DecCoins_MulDec tokens (GetCommission val))))
            then Panic NegativeCoinAmount else Return (Some err, s)) \<and>
         (sortedDenoms tokens \<and> nonNegative tokens \<and> 0 \<le> GetCommission val \<and>
          GetCommission val \<le> LegacyOneDec \<longrightarrow>
            AllocateTokensToValidator k val tokens s = Return (Some err, s))"
proof -
  have 1: "AllocateTokensToValidator k val tokens s =
           (if IsAnyNegative (safeAdd tokens (negative (DecCoins_MulDec tokens (GetCommission val))))
            then Panic NegativeCoinAmount else Return (Some err, s))"
    using assms by (simp add: AllocateTokensToValidator_eq DecCoins_Sub_def Let_def)
  have 2: "AllocateTokensToValidator k val tokens s = Return (Some err, s)"
    if a: "sortedDenoms tokens" "nonNegative tokens" "0 \<le> GetCommission val"
      "GetCommission val \<le> LegacyOneDec"
  proof -
    obtain shared where
      "DecCoins_Sub tokens (DecCoins_MulDec tokens (GetCommission val)) = Return shared"
      using Sub_commission_Return[OF a] by blast
    then show ?thesis using assms by (simp add: AllocateTokensToValidator_eq)
  qed
  show ?thesis using 1 2 by blast
qed

theorem codec_error_leaves_state_witness:
  "AllocateTokensToValidator exampleKeeper validatorBad [(''uatom'', 7)] feesState
     = Return (Some (ErrInvalidAddress ''notbech32''), feesState)"
  using codec_error_leaves_state[of exampleKeeper validatorBad "ErrInvalidAddress ''notbech32''"
      "[(''uatom'', 7)]" feesState, THEN conjunct2]
  by (simp add: exampleKeeper_def validatorBad_def sortedDenoms_def nonNegative_def
      LegacyOneDec_def precisionReuse_def)

text \<open>
  C10 as the claim states it fails: with a reward of \<open>-7 * 10^-18 uatom\<close> and a
  commission rate of 10 percent the commission is \<open>-1 * 10^-18\<close>, the shared part
  \<open>-6 * 10^-18\<close>, and line 109 panics before the codec is called: the codec's error is
  not returned.
\<close>

theorem codec_refused_after_panic_counterexample:
  "StringToBytes exampleKeeper (GetOperator validatorBad) = Inl (ErrInvalidAddress ''notbech32'') \<and>
   AllocateTokensToValidator exampleKeeper validatorBad [(''uatom'', - 7)] feesState
     = Panic NegativeCoinAmount"
  by (simp add: AllocateTokensToValidator_eq exampleKeeper_def validatorBad_def dec_defs coin_defs)

lemma removeZeroDecCoins_Nil [simp]: "removeZeroDecCoins [] = []"
  by (simp add: removeZeroDecCoins_def)

lemma removeZeroDecCoins_Cons [simp]:
  "removeZeroDecCoins (c # cs) = (if snd c = 0 then removeZeroDecCoins cs else c # removeZeroDecCoins cs)"
  by (simp add: removeZeroDecCoins_def)

lemma wfState_commissionOf: "wfState s \<Longrightarrow> validCoins (commissionOf s key)"
  by (simp add: wfState_def commissionOf_def split: option.splits)

lemma wfState_currentRewardsOf: "wfState s \<Longrightarrow> validCoins (currentRewardsOf s key)"
  by (simp add: wfState_def currentRewardsOf_def split: option.splits)

lemma wfState_outstandingOf: "wfState s \<Longrightarrow> validCoins (outstandingOf s key)"
  by (simp add: wfState_def outstandingOf_def split: option.splits)

lemma wfState_DecimalPool: "wfState s \<Longrightarrow> validCoins (DecimalPool s)"
  by (simp add: wfState_def DecimalPool_def split: option.splits)

lemma wfState_bank: "wfState s \<Longrightarrow> validCoins (bank s m)"
  by (simp add: wfState_def)

lemma commissionOf_credit:
  "commissionOf (credit valBz operator commission shared tokens s) key =
     (if key = valBz then safeAdd (commissionOf s valBz) commission else commissionOf s key)"
  by (simp add: credit_def commissionOf_def)

lemma currentRewardsOf_credit:
  "currentRewardsOf (credit valBz operator commission shared tokens s) key =
     (if key = valBz then safeAdd (currentRewardsOf s valBz) shared else currentRewardsOf s key)"
  by (simp add: credit_def currentRewardsOf_def)

lemma outstandingOf_credit:
  "outstandingOf (credit valBz operator commission shared tokens s) key =
     (if key = valBz then safeAdd (outstandingOf s valBz) tokens else outstandingOf s key)"
  by (simp add: credit_def outstandingOf_def)

lemma credit_frame [simp]:
  "bank (credit valBz operator commission shared tokens s) = bank s"
  "sent (credit valBz operator commission shared tokens s) = sent s"
  "FeePool (credit valBz operator commission shared tokens s) = FeePool s"
  "CommunityTax (credit valBz operator commission shared tokens s) = CommunityTax s"
  by (simp_all add: credit_def)

lemma wfState_credit:
  assumes "wfState s" "sortedDenoms commission" "sortedDenoms shared" "sortedDenoms tokens"
  shows "wfState (credit valBz operator commission shared tokens s)"
proof -
  have 1: "validCoins (safeAdd (commissionOf s valBz) commission)"
    using wfState_commissionOf[OF assms(1)] assms(2) validCoins_sorted validCoins_safeAdd
    by blast
  have 2: "validCoins (safeAdd (currentRewardsOf s valBz) shared)"
    using wfState_currentRewardsOf[OF assms(1)] assms(3) validCoins_sorted validCoins_safeAdd
    by blast
  have 3: "validCoins (safeAdd (outstandingOf s valBz) tokens)"
    using wfState_outstandingOf[OF assms(1)] assms(4) validCoins_sorted validCoins_safeAdd
    by blast
  show ?thesis
    using assms(1) 1 2 3 by (simp add: wfState_def credit_def)
qed

lemma AllocateTokensToValidator_Return:
  assumes "AllocateTokensToValidator k val tokens s = Return (None, s')"
  obtains valBz shared where
    "StringToBytes k (GetOperator val) = Inr valBz"
    "DecCoins_Sub tokens (DecCoins_MulDec tokens (GetCommission val)) = Return shared"
    "s' = credit valBz (GetOperator val) (DecCoins_MulDec tokens (GetCommission val)) shared tokens s"
  using assms
  by (auto simp add: AllocateTokensToValidator_eq split: exec.splits sum.splits)

text \<open>
  C4. If the outstanding rewards of a validator are its accumulated commission plus its
  current rewards before a call of \<open>AllocateTokensToValidator\<close> (an absent record read as
  zero, the sum being \<open>DecCoins.Add\<close>), they are so again after every call that returns
  \<open>nil\<close>, for the validator the call credits and for every other one.
\<close>

theorem outstanding_is_commission_plus_current:
  assumes wf: "wfState s" and tokens: "validCoins tokens"
    and run: "AllocateTokensToValidator k val tokens s = Return (None, s')"
    and before: "outstandingOf s v = safeAdd (commissionOf s v) (currentRewardsOf s v)"
  shows "outstandingOf s' v = safeAdd (commissionOf s' v) (currentRewardsOf s' v)"
proof -
  obtain valBz shared where
    sub: "DecCoins_Sub tokens (DecCoins_MulDec tokens (GetCommission val)) = Return shared"
    and s': "s' = credit valBz (GetOperator val) (DecCoins_MulDec tokens (GetCommission val))
                    shared tokens s"
    using run by (rule AllocateTokensToValidator_Return)
  let ?com = "DecCoins_MulDec tokens (GetCommission val)"
  have st: "sortedDenoms tokens" using tokens by (rule validCoins_sorted)
  have sc: "sortedDenoms ?com" using validCoins_MulDec[OF st] by (rule validCoins_sorted)
  have ss: "sortedDenoms shared" using DecCoins_Sub_Return(1)[OF st sc sub] by (rule validCoins_sorted)
  have sh: "AmountOf shared d = AmountOf tokens d - AmountOf ?com d" for d
    by (rule DecCoins_Sub_Return(2)[OF st sc sub])
  have sC: "sortedDenoms (commissionOf s v)"
    using wfState_commissionOf[OF wf] by (rule validCoins_sorted)
  have sR: "sortedDenoms (currentRewardsOf s v)"
    using wfState_currentRewardsOf[OF wf] by (rule validCoins_sorted)
  have sO: "sortedDenoms (outstandingOf s v)"
    using wfState_outstandingOf[OF wf] by (rule validCoins_sorted)
  show ?thesis
  proof (cases "v = valBz")
    case False
    then show ?thesis
      using before by (simp add: s' commissionOf_credit currentRewardsOf_credit outstandingOf_credit)
  next
    case True
    have sC': "sortedDenoms (safeAdd (commissionOf s v) ?com)"
      by (rule sortedDenoms_safeAdd[OF sC sc])
    have sR': "sortedDenoms (safeAdd (currentRewardsOf s v) shared)"
      by (rule sortedDenoms_safeAdd[OF sR ss])
    have "safeAdd (outstandingOf s v) tokens
        = safeAdd (safeAdd (commissionOf s v) ?com) (safeAdd (currentRewardsOf s v) shared)"
    proof (rule coins_eqI)
      show "validCoins (safeAdd (outstandingOf s v) tokens)"
        by (rule validCoins_safeAdd[OF sO st])
      show "validCoins (safeAdd (safeAdd (commissionOf s v) ?com)
                                (safeAdd (currentRewardsOf s v) shared))"
        by (rule validCoins_safeAdd[OF sC' sR'])
      fix d
      have "AmountOf (outstandingOf s v) d
          = AmountOf (commissionOf s v) d + AmountOf (currentRewardsOf s v) d"
        unfolding before by (rule AmountOf_safeAdd[OF sC sR])
      then show "AmountOf (safeAdd (outstandingOf s v) tokens) d
          = AmountOf (safeAdd (safeAdd (commissionOf s v) ?com)
                              (safeAdd (currentRewardsOf s v) shared)) d"
        by (simp add: AmountOf_safeAdd[OF sO st] AmountOf_safeAdd[OF sC' sR']
            AmountOf_safeAdd[OF sC sc] AmountOf_safeAdd[OF sR ss] sh)
    qed
    then show ?thesis
      using True by (simp add: s' commissionOf_credit currentRewardsOf_credit outstandingOf_credit)
  qed
qed


lemma AllocateTokensToValidator_succeeds:
  assumes "StringToBytes k (GetOperator val) = Inr valBz"
    and "sortedDenoms tokens" "nonNegative tokens"
    and "0 \<le> GetCommission val" "GetCommission val \<le> LegacyOneDec"
  shows "\<exists>s'. AllocateTokensToValidator k val tokens s = Return (None, s')"
proof -
  obtain shared where
    "DecCoins_Sub tokens (DecCoins_MulDec tokens (GetCommission val)) = Return shared"
    using Sub_commission_Return[OF assms(2,3,4,5)] by blast
  then show ?thesis using assms(1) by (simp add: AllocateTokensToValidator_eq)
qed

lemma wfState_emptyState: "wfState emptyState"
  by (simp add: wfState_def emptyState_def)

lemma exampleKeeper_validatorA:
  "StringToBytes exampleKeeper (GetOperator validatorA) = Inr [10]"
  "0 \<le> GetCommission validatorA" "GetCommission validatorA \<le> LegacyOneDec"
  by (simp_all add: exampleKeeper_def validatorA_def LegacyOneDec_def precisionReuse_def)

lemma example_reward:
  "sortedDenoms [(''uatom'', 686 * 10 ^ 17)]" "nonNegative [(''uatom'', 686 * 10 ^ 17)]"
  "validCoins [(''uatom'', 686 * 10 ^ 17)]"
  by (simp_all add: validCoins_def nonNegative_def)

theorem outstanding_is_commission_plus_current_witness:
  "\<exists>s'. AllocateTokensToValidator exampleKeeper validatorA [(''uatom'', 686 * 10 ^ 17)] emptyState
           = Return (None, s') \<and>
        outstandingOf s' [10] = safeAdd (commissionOf s' [10]) (currentRewardsOf s' [10])"
proof -
  obtain s' where run:
    "AllocateTokensToValidator exampleKeeper validatorA [(''uatom'', 686 * 10 ^ 17)] emptyState
       = Return (None, s')"
    using AllocateTokensToValidator_succeeds[OF exampleKeeper_validatorA(1) example_reward(1,2)
        exampleKeeper_validatorA(2,3)] by blast
  have before: "outstandingOf emptyState [10]
      = safeAdd (commissionOf emptyState [10]) (currentRewardsOf emptyState [10])"
    by (simp add: emptyState_def outstandingOf_def commissionOf_def currentRewardsOf_def)
  show ?thesis
    using outstanding_is_commission_plus_current[OF wfState_emptyState example_reward(3) run before]
      run by blast
qed



text \<open>
  C3, as the code has it. The commission credited to the validator is the product of the
  reward and the commission rate rounded to the nearest multiple of \<open>10^-18\<close>, a tie
  going to the even neighbour (\<open>DecCoins.MulDec\<close> is \<open>LegacyDec.Mul\<close>, not
  \<open>MulTruncate\<close>); the current rewards get the reward less that commission. For a
  non-negative reward and rate the commission is the truncated product or one unit of
  \<open>10^-18\<close> more.
\<close>

theorem commission_is_rounded_product:
  assumes wf: "wfState s" and tokens: "validCoins tokens"
    and codec: "StringToBytes k (GetOperator val) = Inr valBz"
    and run: "AllocateTokensToValidator k val tokens s = Return (None, s')"
  shows "AmountOf (commissionOf s' valBz) d =
           AmountOf (commissionOf s valBz) d
             + chopPrecisionAndRound (AmountOf tokens d * GetCommission val) \<and>
         AmountOf (currentRewardsOf s' valBz) d =
           AmountOf (currentRewardsOf s valBz) d
             + (AmountOf tokens d - chopPrecisionAndRound (AmountOf tokens d * GetCommission val)) \<and>
         (0 \<le> AmountOf tokens d \<and> 0 \<le> GetCommission val \<longrightarrow>
            LegacyDec_MulTruncate (AmountOf tokens d) (GetCommission val)
              \<le> chopPrecisionAndRound (AmountOf tokens d * GetCommission val) \<and>
            chopPrecisionAndRound (AmountOf tokens d * GetCommission val)
              \<le> LegacyDec_MulTruncate (AmountOf tokens d) (GetCommission val) + 1)"
proof -
  obtain valBz' shared where
    codec': "StringToBytes k (GetOperator val) = Inr valBz'"
    and sub: "DecCoins_Sub tokens (DecCoins_MulDec tokens (GetCommission val)) = Return shared"
    and s': "s' = credit valBz' (GetOperator val) (DecCoins_MulDec tokens (GetCommission val))
                    shared tokens s"
    using run by (rule AllocateTokensToValidator_Return)
  have key: "valBz' = valBz" using codec codec' by simp
  let ?com = "DecCoins_MulDec tokens (GetCommission val)"
  have st: "sortedDenoms tokens" using tokens by (rule validCoins_sorted)
  have sc: "sortedDenoms ?com" using validCoins_MulDec[OF st] by (rule validCoins_sorted)
  have ss: "sortedDenoms shared" using DecCoins_Sub_Return(1)[OF st sc sub] by (rule validCoins_sorted)
  have sC: "sortedDenoms (commissionOf s valBz)"
    using wfState_commissionOf[OF wf] by (rule validCoins_sorted)
  have sR: "sortedDenoms (currentRewardsOf s valBz)"
    using wfState_currentRewardsOf[OF wf] by (rule validCoins_sorted)
  have com: "AmountOf ?com d = chopPrecisionAndRound (AmountOf tokens d * GetCommission val)"
    by (simp add: AmountOf_MulDec[OF st] LegacyDec_Mul_def)
  have 1: "AmountOf (commissionOf s' valBz) d =
           AmountOf (commissionOf s valBz) d
             + chopPrecisionAndRound (AmountOf tokens d * GetCommission val)"
    by (simp add: s' key commissionOf_credit AmountOf_safeAdd[OF sC sc] com)
  have 2: "AmountOf (currentRewardsOf s' valBz) d =
           AmountOf (currentRewardsOf s valBz) d
             + (AmountOf tokens d - chopPrecisionAndRound (AmountOf tokens d * GetCommission val))"
    by (simp add: s' key currentRewardsOf_credit AmountOf_safeAdd[OF sR ss]
        DecCoins_Sub_Return(2)[OF st sc sub] com)
  have 3: "LegacyDec_MulTruncate (AmountOf tokens d) (GetCommission val)
              \<le> chopPrecisionAndRound (AmountOf tokens d * GetCommission val) \<and>
            chopPrecisionAndRound (AmountOf tokens d * GetCommission val)
              \<le> LegacyDec_MulTruncate (AmountOf tokens d) (GetCommission val) + 1"
    if "0 \<le> AmountOf tokens d" "0 \<le> GetCommission val"
  proof -
    have "0 \<le> AmountOf tokens d * GetCommission val" using that by simp
    then show ?thesis using round_between by (simp add: LegacyDec_MulTruncate_def)
  qed
  show ?thesis using 1 2 3 by blast
qed

lemma example_small_reward:
  "DecCoins_MulDec [(''uatom'', 7)] (GetCommission validatorA) = [(''uatom'', 1)]"
  "DecCoins_MulDecTruncate [(''uatom'', 7)] (GetCommission validatorA) = []"
  "DecCoins_Sub [(''uatom'', 7)] [(''uatom'', 1)] = Return [(''uatom'', 6)]"
  by (simp_all add: validatorA_def dec_defs coin_defs)

lemma example_small_run:
  "AllocateTokensToValidator exampleKeeper validatorA [(''uatom'', 7)] emptyState
     = Return (None, credit [10] ''valoperA'' [(''uatom'', 1)] [(''uatom'', 6)] [(''uatom'', 7)]
                       emptyState)"
  by (simp add: AllocateTokensToValidator_eq example_small_reward exampleKeeper_validatorA(1))
     (simp add: validatorA_def)

theorem commission_is_rounded_product_witness:
  "AmountOf (commissionOf (credit [10] ''valoperA'' [(''uatom'', 1)] [(''uatom'', 6)]
                             [(''uatom'', 7)] emptyState) [10]) ''uatom'' = 1 \<and>
   AmountOf (currentRewardsOf (credit [10] ''valoperA'' [(''uatom'', 1)] [(''uatom'', 6)]
                                 [(''uatom'', 7)] emptyState) [10]) ''uatom'' = 6 \<and>
   LegacyDec_MulTruncate 7 (GetCommission validatorA) = 0"
proof -
  have v: "validCoins [(''uatom'', 7)]" by (simp add: validCoins_def)
  have r: "chopPrecisionAndRound (7 * GetCommission validatorA) = 1"
    by (simp add: validatorA_def dec_defs)
  have t: "LegacyDec_MulTruncate 7 (GetCommission validatorA) = 0"
    by (simp add: validatorA_def dec_defs)
  have e: "AmountOf (commissionOf emptyState [10]) ''uatom'' = 0"
    "AmountOf (currentRewardsOf emptyState [10]) ''uatom'' = 0"
    by (simp_all add: emptyState_def commissionOf_def currentRewardsOf_def)
  show ?thesis
    using commission_is_rounded_product[OF wfState_emptyState v exampleKeeper_validatorA(1)
        example_small_run, of "''uatom''"] r t e
    by simp
qed

text \<open>
  C3 as the claim states it fails: a reward of \<open>7 * 10^-18 uatom\<close> to a validator with a
  rate of 10 percent credits a commission of \<open>10^-18 uatom\<close>, where the truncated product
  is zero.
\<close>

theorem commission_truncation_counterexample:
  "AllocateTokensToValidator exampleKeeper validatorA [(''uatom'', 7)] emptyState
     = Return (None, credit [10] ''valoperA'' [(''uatom'', 1)] [(''uatom'', 6)] [(''uatom'', 7)]
                       emptyState) \<and>
   commissionOf (credit [10] ''valoperA'' [(''uatom'', 1)] [(''uatom'', 6)] [(''uatom'', 7)]
                   emptyState) [10] = [(''uatom'', 1)] \<and>
   commissionOf emptyState [10] = [] \<and>
   DecCoins_MulDecTruncate [(''uatom'', 7)] (GetCommission validatorA) = []"
  using example_small_run example_small_reward(2)
  by (simp add: commissionOf_credit) (simp add: commissionOf_def emptyState_def)

subsection \<open>The bank\<close>

lemma Send_Inr:
  assumes "SendCoinsFromModuleToModule sender recipient amt s = Inr s'"
  shows "Coins_IsValid amt"
    and "s' = s\<lparr>bank := (bank s)(sender := safeAdd (bank s sender) (negative amt),
                               recipient := safeAdd (bank s recipient) amt),
                 sent := sent s @ [(sender, recipient, amt)]\<rparr>"
  using assms by (auto simp add: SendCoinsFromModuleToModule_def split: if_splits)

lemma Send_frame:
  assumes "SendCoinsFromModuleToModule sender recipient amt s = Inr s'"
  shows "FeePool s' = FeePool s" "CommunityTax s' = CommunityTax s"
    "ValidatorsAccumulatedCommission s' = ValidatorsAccumulatedCommission s"
    "ValidatorCurrentRewards s' = ValidatorCurrentRewards s"
    "ValidatorOutstandingRewards s' = ValidatorOutstandingRewards s"
    "events s' = events s"
    "sent s' = sent s @ [(sender, recipient, amt)]"
  using Send_Inr(2)[OF assms] by simp_all

lemma Send_cases:
  "(\<exists>err. SendCoinsFromModuleToModule sender recipient amt s = Inl err) \<or>
   (\<exists>s'. SendCoinsFromModuleToModule sender recipient amt s = Inr s')"
  by (simp add: SendCoinsFromModuleToModule_def)

lemma Coins_IsValid_iff:
  "Coins_IsValid amt \<longleftrightarrow> validCoins amt \<and> nonNegative amt"
  by (fastforce simp add: Coins_IsValid_def validCoins_def nonNegative_def sortedDenoms_def
        list_all_iff order_less_le)

lemma Send_succeeds:
  assumes "validCoins amt" "\<And>d. 0 \<le> AmountOf amt d"
    and "\<And>d. AmountOf amt d \<le> AmountOf (bank s sender) d"
  shows "\<exists>s'. SendCoinsFromModuleToModule sender recipient amt s = Inr s'"
proof -
  have sa: "sortedDenoms amt" using assms(1) by (rule validCoins_sorted)
  have v: "Coins_IsValid amt"
    using assms(1,2) nonNegative_iff[OF sa] by (simp add: Coins_IsValid_iff)
  have "list_all (\<lambda>coin. snd coin \<le> AmountOf (bank s sender) (fst coin)) amt"
    unfolding list_all_iff
  proof
    fix coin assume "coin \<in> set amt"
    then have "(fst coin, snd coin) \<in> set amt" by simp
    then have "AmountOf amt (fst coin) = snd coin" using AmountOf_in[OF sa] by blast
    then show "snd coin \<le> AmountOf (bank s sender) (fst coin)"
      using assms(3)[of "fst coin"] by simp
  qed
  then show ?thesis using v by (simp add: SendCoinsFromModuleToModule_def)
qed

lemma Send_bank:
  assumes "SendCoinsFromModuleToModule sender recipient amt s = Inr s'"
    and "sender \<noteq> recipient"
    and "sortedDenoms (bank s sender)" "sortedDenoms (bank s recipient)"
  shows "AmountOf (bank s' recipient) d = AmountOf (bank s recipient) d + AmountOf amt d"
    and "AmountOf (bank s' sender) d = AmountOf (bank s sender) d - AmountOf amt d"
    and "m \<noteq> sender \<Longrightarrow> m \<noteq> recipient \<Longrightarrow> bank s' m = bank s m"
    and "validCoins (bank s' recipient)" and "validCoins (bank s' sender)"
proof -
  have sa: "sortedDenoms amt"
    using Send_Inr(1)[OF assms(1)] by (simp add: Coins_IsValid_iff validCoins_sorted)
  have sn: "sortedDenoms (negative amt)" using sa by (simp add: sortedDenoms_negative)
  note s' = Send_Inr(2)[OF assms(1)]
  show "AmountOf (bank s' recipient) d = AmountOf (bank s recipient) d + AmountOf amt d"
    using assms(2) by (simp add: s' AmountOf_safeAdd[OF assms(4) sa])
  show "AmountOf (bank s' sender) d = AmountOf (bank s sender) d - AmountOf amt d"
    using assms(2) by (simp add: s' AmountOf_safeAdd[OF assms(3) sn] AmountOf_negative)
  show "m \<noteq> sender \<Longrightarrow> m \<noteq> recipient \<Longrightarrow> bank s' m = bank s m"
    by (simp add: s')
  show "validCoins (bank s' recipient)"
    using assms(2) by (simp add: s' validCoins_safeAdd[OF assms(4) sa])
  show "validCoins (bank s' sender)"
    using assms(2) by (simp add: s' validCoins_safeAdd[OF assms(3) sn])
qed

subsection \<open>SendDecimalPoolToCommunityPool\<close>

text \<open>
  C6. On a pool that is zero, \<open>SendDecimalPoolToCommunityPool\<close> returns \<open>nil\<close> and the
  state, the bank's balances and its log of transfers included, is the one it was called
  with. On a well-formed non-negative pool that is not zero, the whole part of which the
  distribution account holds, it makes one transfer to the community fund, of exactly the
  whole part of every denomination, and the pool it leaves is exactly the part below one
  unit. Whatever the state, a call that returns has made no transfer or one transfer of
  valid coins: sorted, every amount a positive whole number.
\<close>

theorem flush_boundary:
  "(FeePool s = Some pool \<and> DecCoins_IsZero pool \<longrightarrow>
      SendDecimalPoolToCommunityPool s = Return (None, s)) \<and>
   (FeePool s = Some pool \<and> \<not> DecCoins_IsZero pool \<and> sortedDenoms pool \<and> nonNegative pool \<and>
    sortedDenoms (bank s Distribution) \<and> sortedDenoms (bank s ProtocolPool) \<and>
    (\<forall>d. LegacyDec_TruncateInt (AmountOf pool d) \<le> AmountOf (bank s Distribution) d) \<longrightarrow>
      (\<exists>amt re s'. SendDecimalPoolToCommunityPool s = Return (None, s') \<and>
         sent s' = sent s @ [(Distribution, ProtocolPool, amt)] \<and>
         FeePool s' = Some re \<and>
         (\<forall>d. AmountOf amt d = LegacyDec_TruncateInt (AmountOf pool d) \<and>
              0 \<le> AmountOf amt d \<and>
              AmountOf re d = AmountOf pool d - LegacyNewDec (AmountOf amt d) \<and>
              0 \<le> AmountOf re d \<and> AmountOf re d < precisionReuse \<and>
              AmountOf (bank s' ProtocolPool) d = AmountOf (bank s ProtocolPool) d + AmountOf amt d \<and>
              AmountOf (bank s' Distribution) d = AmountOf (bank s Distribution) d - AmountOf amt d))) \<and>
   (SendDecimalPoolToCommunityPool s = Return (err, t) \<longrightarrow>
      sent t = sent s \<or>
      (\<exists>amt. sent t = sent s @ [(Distribution, ProtocolPool, amt)] \<and> Coins_IsValid amt))"
proof (intro conjI impI)
  assume "FeePool s = Some pool \<and> DecCoins_IsZero pool"
  then show "SendDecimalPoolToCommunityPool s = Return (None, s)"
    by (simp add: SendDecimalPoolToCommunityPool_def Item_Get_def)
next
  assume a: "FeePool s = Some pool \<and> \<not> DecCoins_IsZero pool \<and> sortedDenoms pool \<and>
    nonNegative pool \<and> sortedDenoms (bank s Distribution) \<and> sortedDenoms (bank s ProtocolPool) \<and>
    (\<forall>d. LegacyDec_TruncateInt (AmountOf pool d) \<le> AmountOf (bank s Distribution) d)"
  then have sp: "sortedDenoms pool" and np: "nonNegative pool" by simp_all
  obtain amt re where tr: "DecCoins_TruncateDecimal pool = Return (amt, re)"
    using TruncateDecimal_nonNegative[OF np] by blast
  note T = TruncateDecimal_Return[OF sp tr]
  have amt: "AmountOf amt d = LegacyDec_TruncateInt (AmountOf pool d)" for d by (rule T(3))
  have pos: "0 \<le> AmountOf amt d" for d
    using TruncateInt_nonneg(1)[OF T(5)[of d]] by (simp add: amt)
  have "AmountOf amt d \<le> AmountOf (bank s Distribution) d" for d using a by (simp add: amt)
  then obtain s1 where
    send: "SendCoinsFromModuleToModule Distribution ProtocolPool amt s = Inr s1"
    using Send_succeeds[OF T(1) pos] by blast
  have run: "SendDecimalPoolToCommunityPool s = Return (None, s1\<lparr>FeePool := Some re\<rparr>)"
    using a tr send by (simp add: SendDecimalPoolToCommunityPool_def Item_Get_def)
  have sD: "sortedDenoms (bank s Distribution)" and sP: "sortedDenoms (bank s ProtocolPool)"
    using a by simp_all
  have B: "AmountOf (bank s1 ProtocolPool) d = AmountOf (bank s ProtocolPool) d + AmountOf amt d"
    "AmountOf (bank s1 Distribution) d = AmountOf (bank s Distribution) d - AmountOf amt d" for d
    using Send_bank(1,2)[OF send _ sD sP] by simp_all
  have R: "AmountOf re d = AmountOf pool d - LegacyNewDec (AmountOf amt d)"
    "0 \<le> AmountOf re d" "AmountOf re d < precisionReuse" for d
    using T(4)[of d] TruncateInt_nonneg(2,3)[OF T(5)[of d]] by (simp_all add: amt)
  show "\<exists>amt re s'. SendDecimalPoolToCommunityPool s = Return (None, s') \<and>
         sent s' = sent s @ [(Distribution, ProtocolPool, amt)] \<and>
         FeePool s' = Some re \<and>
         (\<forall>d. AmountOf amt d = LegacyDec_TruncateInt (AmountOf pool d) \<and>
              0 \<le> AmountOf amt d \<and>
              AmountOf re d = AmountOf pool d - LegacyNewDec (AmountOf amt d) \<and>
              0 \<le> AmountOf re d \<and> AmountOf re d < precisionReuse \<and>
              AmountOf (bank s' ProtocolPool) d = AmountOf (bank s ProtocolPool) d + AmountOf amt d \<and>
              AmountOf (bank s' Distribution) d = AmountOf (bank s Distribution) d - AmountOf amt d)"
    apply (rule exI[of _ amt], rule exI[of _ re], rule exI[of _ "s1\<lparr>FeePool := Some re\<rparr>"])
    using run Send_frame(7)[OF send] amt pos R B by simp
next
  assume r: "SendDecimalPoolToCommunityPool s = Return (err, t)"
  show "sent t = sent s \<or>
      (\<exists>amt. sent t = sent s @ [(Distribution, ProtocolPool, amt)] \<and> Coins_IsValid amt)"
    using r Send_Inr(1) Send_frame(7)
    by (fastforce simp add: SendDecimalPoolToCommunityPool_def Item_Get_def
        split: option.splits if_splits exec.splits sum.splits prod.splits)
qed

theorem flush_boundary_witness:
  "SendDecimalPoolToCommunityPool emptyState = Return (None, emptyState) \<and>
   (\<exists>amt re s'. SendDecimalPoolToCommunityPool flushState = Return (None, s') \<and>
      sent s' = [(Distribution, ProtocolPool, amt)] \<and> FeePool s' = Some re \<and>
      AmountOf amt ''uatom'' = 1 \<and> AmountOf re ''uatom'' = 999999000000000000 \<and>
      AmountOf (bank s' ProtocolPool) ''uatom'' = 1 \<and>
      AmountOf (bank s' Distribution) ''uatom'' = 4)"
proof -
  have zero: "FeePool emptyState = Some [] \<and> DecCoins_IsZero []"
    by (simp add: emptyState_def DecCoins_IsZero_def)
  have 1: "SendDecimalPoolToCommunityPool emptyState = Return (None, emptyState)"
    using flush_boundary[of emptyState "[]"] zero by blast
  let ?pool = "[(''uatom'', 1999999000000000000)] :: DecCoins"
  have t: "LegacyDec_TruncateInt (AmountOf ?pool d) = (if d = ''uatom'' then 1 else 0)" for d
    by (simp add: dec_defs)
  have pre: "FeePool flushState = Some ?pool \<and> \<not> DecCoins_IsZero ?pool \<and> sortedDenoms ?pool \<and>
    nonNegative ?pool \<and> sortedDenoms (bank flushState Distribution) \<and>
    sortedDenoms (bank flushState ProtocolPool) \<and>
    (\<forall>d. LegacyDec_TruncateInt (AmountOf ?pool d) \<le> AmountOf (bank flushState Distribution) d)"
    unfolding t by (simp add: flushState_def emptyState_def DecCoins_IsZero_def nonNegative_def)
  obtain amt re s' where r:
    "SendDecimalPoolToCommunityPool flushState = Return (None, s')"
    "sent s' = sent flushState @ [(Distribution, ProtocolPool, amt)]"
    "FeePool s' = Some re"
    "\<forall>d. AmountOf amt d = LegacyDec_TruncateInt (AmountOf ?pool d) \<and>
              0 \<le> AmountOf amt d \<and>
              AmountOf re d = AmountOf ?pool d - LegacyNewDec (AmountOf amt d) \<and>
              0 \<le> AmountOf re d \<and> AmountOf re d < precisionReuse \<and>
              AmountOf (bank s' ProtocolPool) d = AmountOf (bank flushState ProtocolPool) d + AmountOf amt d \<and>
              AmountOf (bank s' Distribution) d = AmountOf (bank flushState Distribution) d - AmountOf amt d"
    using flush_boundary[of flushState ?pool] pre by blast
  have a: "AmountOf amt ''uatom'' = 1" using r(4) t by simp
  have "AmountOf re ''uatom'' = 999999000000000000"
    "AmountOf (bank s' ProtocolPool) ''uatom'' = 1"
    "AmountOf (bank s' Distribution) ''uatom'' = 4"
    using r(4) a by (simp_all add: flushState_def emptyState_def LegacyNewDec_def precisionReuse_def)
  moreover have "sent s' = [(Distribution, ProtocolPool, amt)]"
    using r(2) by (simp add: flushState_def emptyState_def)
  ultimately show ?thesis using 1 r(1,3) a by blast
qed

subsection \<open>The pool stays non-negative\<close>

lemma nonNegative_Nil [simp]: "nonNegative []"
  by (simp add: nonNegative_def)

lemma nonNegative_removeZero: "nonNegative a \<Longrightarrow> nonNegative (removeZeroDecCoins a)"
  by (simp add: nonNegative_def removeZeroDecCoins_def list_all_iff)

lemma nonNegative_keepNonZero:
  "0 \<le> snd c \<Longrightarrow> nonNegative a \<Longrightarrow> nonNegative (keepNonZero c a)"
  by (simp add: nonNegative_def keepNonZero_def)

lemma nonNegative_safeAdd:
  "nonNegative a \<Longrightarrow> nonNegative b \<Longrightarrow> nonNegative (safeAdd a b)"
proof (induction a b rule: safeAdd.induct)
  case (1 coinsB)
  then show ?case by (simp add: nonNegative_removeZero del: removeZeroDecCoins_Cons)
next
  case (2 coinA restA)
  then show ?case using nonNegative_removeZero[of "coinA # restA"] by simp
next
  case (3 denomA amtA restA denomB amtB restB)
  have a: "0 \<le> amtA" "nonNegative restA" and b: "0 \<le> amtB" "nonNegative restB"
    using "3.prems" by (simp_all add: nonNegative_def)
  consider "denomA < denomB" | "denomA = denomB" | "\<not> denomA < denomB" "denomA \<noteq> denomB"
    by blast
  then show ?case
  proof cases
    case 1
    then show ?thesis using 3 a by (simp add: nonNegative_keepNonZero)
  next
    case 2
    then show ?thesis using "3.IH"(2) a b by (simp add: nonNegative_keepNonZero)
  next
    case 3
    then show ?thesis using "3.IH"(3) "3.prems" b by (simp add: nonNegative_keepNonZero)
  qed
qed

lemma nonNegative_NewDecCoinsFromCoins:
  "nonNegative a \<Longrightarrow> nonNegative (NewDecCoinsFromCoins a)"
  by (auto simp add: nonNegative_def NewDecCoinsFromCoins_def list_all_iff LegacyNewDec_def
        precisionReuse_def removeZeroDecCoins_def)

lemma TruncateDecimal_change_nonNegative:
  assumes "DecCoins_TruncateDecimal a = Return (amt, re)"
  shows "nonNegative re"
proof -
  have nn: "\<not> IsAnyNegative a"
    and re: "re = removeZeroDecCoins
           (map (\<lambda>coin. (fst coin, snd coin - LegacyNewDec (LegacyDec_TruncateInt (snd coin)))) a)"
    using assms by (auto simp add: DecCoins_TruncateDecimal_def split: if_splits)
  have "0 \<le> snd coin - LegacyNewDec (LegacyDec_TruncateInt (snd coin))" if "coin \<in> set a" for coin
  proof -
    have "0 \<le> snd coin" using nn that by (auto simp add: IsAnyNegative_def list_ex_iff not_less)
    then show ?thesis by (rule TruncateInt_nonneg(2))
  qed
  then show ?thesis
    unfolding re by (intro nonNegative_removeZero) (simp add: nonNegative_def list_all_iff)
qed

lemma fold_applyPlan_frame [simp]:
  "bank (fold applyPlan plans s) = bank s"
  "sent (fold applyPlan plans s) = sent s"
  "FeePool (fold applyPlan plans s) = FeePool s"
  "CommunityTax (fold applyPlan plans s) = CommunityTax s"
proof (induction plans arbitrary: s)
  case Nil
  { case 1 show ?case by simp
  next case 2 show ?case by simp
  next case 3 show ?case by simp
  next case 4 show ?case by simp }
next
  case (Cons p plans)
  { case 1 show ?case using Cons(1) by (cases p) simp_all
  next case 2 show ?case using Cons(2) by (cases p) simp_all
  next case 3 show ?case using Cons(3) by (cases p) simp_all
  next case 4 show ?case using Cons(4) by (cases p) simp_all }
qed

subsection \<open>AllocateTokens\<close>

lemma AllocateTokens_early:
  "SendCoinsFromModuleToModule FeeCollector Distribution (bank s FeeCollector) s = Inl err \<Longrightarrow>
     AllocateTokens k P votes s = Return (Some err, s)"
  "SendCoinsFromModuleToModule FeeCollector Distribution (bank s FeeCollector) s = Inr s1 \<Longrightarrow>
   FeePool s = None \<Longrightarrow> AllocateTokens k P votes s = Return (Some ErrNotFound, s1)"
  "SendCoinsFromModuleToModule FeeCollector Distribution (bank s FeeCollector) s = Inr s1 \<Longrightarrow>
   FeePool s = Some feePool \<Longrightarrow> CommunityTax s = None \<Longrightarrow>
     AllocateTokens k P votes s =
       Return (Some ErrNotFound,
               if P = 0
               then s1\<lparr>FeePool := Some (safeAdd feePool (NewDecCoinsFromCoins (bank s FeeCollector)))\<rparr>
               else s1)"
  using Send_frame(1,2)[of FeeCollector Distribution "bank s FeeCollector" s s1]
  by (simp_all add: AllocateTokens_def GetAllBalances_def Item_Get_def GetCommunityTax_def Let_def)

lemma AllocateTokens_eq:
  fixes s s1 :: State and P :: int64 and k :: Keeper and votes :: "VoteInfo list"
    and feePool :: DecCoins and tax :: LegacyDec
  defines "E \<equiv> NewDecCoinsFromCoins (bank s FeeCollector)"
  assumes send: "SendCoinsFromModuleToModule FeeCollector Distribution (bank s FeeCollector) s = Inr s1"
    and pool: "FeePool s = Some feePool" and tax: "CommunityTax s = Some tax"
  defines "s2 \<equiv> (if P = 0 then s1\<lparr>FeePool := Some (safeAdd feePool E)\<rparr> else s1)"
  defines "plans \<equiv> map (taskPlan k P (DecCoins_MulDecTruncate E (LegacyOneDec - tax))) votes"
  shows "AllocateTokens k P votes s =
     (case plannedPanic plans of
        Some p \<Rightarrow> Panic p
      | None \<Rightarrow>
     (case plannedError plans of
        Some err \<Rightarrow> Return (Some err, fold applyPlan plans s2)
      | None \<Rightarrow>
     (case subtractRewards E (plannedRewards plans) of
        Panic p \<Rightarrow> Panic p
      | Return remaining \<Rightarrow>
     (case DecCoins_TruncateDecimal remaining of
        Panic p \<Rightarrow> Panic p
      | Return (amt, re) \<Rightarrow>
     (case SendCoinsFromModuleToModule Distribution ProtocolPool amt (fold applyPlan plans s2) of
        Inl err \<Rightarrow> Return (Some err, fold applyPlan plans s2)
      | Inr s4 \<Rightarrow> Return (None, s4\<lparr>FeePool := Some (safeAdd feePool re)\<rparr>))))))"
proof -
  note f1 = Send_frame(1,2)[OF send]
  have t2: "CommunityTax s2 = Some tax" by (simp add: s2_def f1 tax)
  have "AllocateTokens k P votes s =
     (case runTasks k P (DecCoins_MulDecTruncate E (LegacyOneDec - tax)) votes s2 of
        Panic p \<Rightarrow> Panic p
      | Return (Some err, s3, remainingCh) \<Rightarrow> Return (Some err, s3)
      | Return (None, s3, remainingCh) \<Rightarrow>
     (case subtractRewards E remainingCh of
        Panic p \<Rightarrow> Panic p
      | Return remaining' \<Rightarrow>
     (case DecCoins_TruncateDecimal remaining' of
        Panic p \<Rightarrow> Panic p
      | Return (amt, re) \<Rightarrow>
     (case SendCoinsFromModuleToModule Distribution ProtocolPool amt s3 of
        Inl err \<Rightarrow> Return (Some err, s3)
      | Inr s4 \<Rightarrow> Return (None, s4\<lparr>FeePool := Some (safeAdd feePool re)\<rparr>)))))"
    unfolding AllocateTokens_def GetAllBalances_def Let_def E_def[symmetric]
    using send pool tax f1 t2
    by (simp add: Item_Get_def GetCommunityTax_def s2_def[symmetric])
  then show ?thesis
    by (simp add: runTasks_eq plans_def[symmetric] split: option.splits)
qed

lemma AllocateTokens_Return_cases:
  fixes s s1 :: State and P :: int64 and k :: Keeper and votes :: "VoteInfo list"
    and feePool :: DecCoins and tax :: LegacyDec
  defines "E \<equiv> NewDecCoinsFromCoins (bank s FeeCollector)"
  assumes send: "SendCoinsFromModuleToModule FeeCollector Distribution (bank s FeeCollector) s = Inr s1"
    and pool: "FeePool s = Some feePool" and tax: "CommunityTax s = Some tax"
  defines "s2 \<equiv> (if P = 0 then s1\<lparr>FeePool := Some (safeAdd feePool E)\<rparr> else s1)"
  defines "plans \<equiv> map (taskPlan k P (DecCoins_MulDecTruncate E (LegacyOneDec - tax))) votes"
  assumes run: "AllocateTokens k P votes s = Return (e, s')"
  shows "plannedPanic plans = None \<and>
         ((e \<noteq> None \<and> s' = fold applyPlan plans s2) \<or>
          (\<exists>remaining amt re s4.
             e = None \<and> plannedError plans = None \<and>
             subtractRewards E (plannedRewards plans) = Return remaining \<and>
             DecCoins_TruncateDecimal remaining = Return (amt, re) \<and>
             SendCoinsFromModuleToModule Distribution ProtocolPool amt (fold applyPlan plans s2)
               = Inr s4 \<and>
             s' = s4\<lparr>FeePool := Some (safeAdd feePool re)\<rparr>))"
proof -
  note eq = AllocateTokens_eq[OF send pool tax, of k P votes,
      folded E_def, folded s2_def, folded plans_def]
  have pp: "plannedPanic plans = None"
    using run unfolding eq by (simp split: option.splits)
  show ?thesis
  proof (cases "plannedError plans")
    case (Some err)
    then show ?thesis using run pp unfolding eq by auto
  next
    case None
    obtain remaining where sub: "subtractRewards E (plannedRewards plans) = Return remaining"
      using run pp None unfolding eq by (cases "subtractRewards E (plannedRewards plans)") simp_all
    obtain amt re where tr: "DecCoins_TruncateDecimal remaining = Return (amt, re)"
      using run pp None sub unfolding eq
      by (cases "DecCoins_TruncateDecimal remaining") auto
    show ?thesis
    proof (cases "SendCoinsFromModuleToModule Distribution ProtocolPool amt (fold applyPlan plans s2)")
      case (Inl err)
      then show ?thesis using run pp None sub tr unfolding eq by auto
    next
      case (Inr s4)
      then show ?thesis using run pp None sub tr unfolding eq by auto
    qed
  qed
qed

lemma AllocateTokens_pool:
  assumes "AllocateTokens k P votes s = Return (e, s')"
  shows "FeePool s' = FeePool s \<or>
         (\<exists>feePool. FeePool s = Some feePool \<and>
            (FeePool s' = Some (safeAdd feePool (NewDecCoinsFromCoins (bank s FeeCollector))) \<or>
             (\<exists>remaining amt re. DecCoins_TruncateDecimal remaining = Return (amt, re) \<and>
                FeePool s' = Some (safeAdd feePool re))))"
proof (cases "SendCoinsFromModuleToModule FeeCollector Distribution (bank s FeeCollector) s")
  case (Inl err)
  then show ?thesis using assms by (simp add: AllocateTokens_early(1))
next
  case (Inr s1)
  note f1 = Send_frame(1)[OF Inr]
  show ?thesis
  proof (cases "FeePool s")
    case None
    then show ?thesis using assms Inr f1 by (simp add: AllocateTokens_early(2))
  next
    case (Some feePool)
    show ?thesis
    proof (cases "CommunityTax s")
      case None
      then show ?thesis
        using assms Inr f1 Some by (auto simp add: AllocateTokens_early(3) split: if_splits)
    next
      case tax: (Some tax)
      from AllocateTokens_Return_cases[OF Inr Some tax assms]
      show ?thesis
      proof (elim conjE disjE exE)
        assume "s' = fold applyPlan
           (map (taskPlan k P
             (DecCoins_MulDecTruncate (NewDecCoinsFromCoins (bank s FeeCollector)) (LegacyOneDec - tax)))
             votes)
           (if P = 0
            then s1\<lparr>FeePool := Some (safeAdd feePool (NewDecCoinsFromCoins (bank s FeeCollector)))\<rparr>
            else s1)"
        then show ?thesis using Some f1 by simp
      next
        fix remaining amt re s4
        assume "DecCoins_TruncateDecimal remaining = Return (amt, re)"
          and "s' = s4\<lparr>FeePool := Some (safeAdd feePool re)\<rparr>"
        then show ?thesis using Some by auto
      qed
    qed
  qed
qed

text \<open>
  C8. A pool that is non-negative in every denomination is non-negative again after every
  call of \<open>AllocateTokens\<close> that returns, the fee collector's balance being non-negative,
  and after every call of \<open>SendDecimalPoolToCommunityPool\<close> that returns. Nothing is
  asked of the votes, of the total power or of the tax rate.
\<close>

theorem pool_stays_non_negative:
  "(nonNegative (DecimalPool s) \<and> nonNegative (bank s FeeCollector) \<and>
    AllocateTokens k P votes s = Return (e, s') \<longrightarrow> nonNegative (DecimalPool s')) \<and>
   (nonNegative (DecimalPool s) \<and> SendDecimalPoolToCommunityPool s = Return (e', t) \<longrightarrow>
      nonNegative (DecimalPool t))"
proof (intro conjI impI)
  assume a: "nonNegative (DecimalPool s) \<and> nonNegative (bank s FeeCollector) \<and>
    AllocateTokens k P votes s = Return (e, s')"
  then have E: "nonNegative (NewDecCoinsFromCoins (bank s FeeCollector))"
    by (simp add: nonNegative_NewDecCoinsFromCoins)
  from a have run: "AllocateTokens k P votes s = Return (e, s')" by simp
  show "nonNegative (DecimalPool s')"
    using AllocateTokens_pool[OF run] a E
    by (auto simp add: DecimalPool_def nonNegative_safeAdd TruncateDecimal_change_nonNegative)
next
  assume a: "nonNegative (DecimalPool s) \<and> SendDecimalPoolToCommunityPool s = Return (e', t)"
  then show "nonNegative (DecimalPool t)"
    using Send_frame(1) TruncateDecimal_change_nonNegative
    by (fastforce simp add: SendDecimalPoolToCommunityPool_def Item_Get_def DecimalPool_def
        split: option.splits if_splits exec.splits sum.splits prod.splits)
qed

subsection \<open>The example cycle\<close>

lemma example_send_fees:
  "SendCoinsFromModuleToModule FeeCollector Distribution (bank feesState FeeCollector) feesState
     = Inr exampleAfterFees"
  by (simp add: SendCoinsFromModuleToModule_def Coins_IsValid_def feesState_def emptyState_def
      exampleAfterFees_def negative_def keepNonZero_def)

lemma example_fees:
  "FeePool feesState = Some []" "CommunityTax feesState = Some (2 * 10 ^ 16)"
  "NewDecCoinsFromCoins (bank feesState FeeCollector) = [(''uatom'', 100000000000000000000)]"
  by (simp_all add: feesState_def emptyState_def NewDecCoinsFromCoins_def LegacyNewDec_def
      precisionReuse_def)

lemma example_feeMultiplier:
  "DecCoins_MulDecTruncate [(''uatom'', 100000000000000000000)] (LegacyOneDec - 2 * 10 ^ 16)
     = [(''uatom'', 98000000000000000000)]"
  by (simp add: dec_defs coin_defs)

lemma example_taskPlan:
  "taskPlan exampleKeeper 100 [(''uatom'', 98000000000000000000)] (voteOf [1] 70)
     = TaskCredit [10] ''valoperA'' [(''uatom'', 6860000000000000000)]
        [(''uatom'', 61740000000000000000)] [(''uatom'', 68600000000000000000)]"
  "taskPlan exampleKeeper 100 [(''uatom'', 98000000000000000000)] (voteOf [2] 30)
     = TaskCredit [11] ''valoperB'' [(''uatom'', 2940000000000000000)]
        [(''uatom'', 26460000000000000000)] [(''uatom'', 29400000000000000000)]"
  by (simp_all add: taskPlan_def exampleKeeper_def validatorA_def validatorB_def voteOf_def
      dec_defs coin_defs Let_def)

lemma example_plans:
  "map (taskPlan exampleKeeper 100 [(''uatom'', 98000000000000000000)]) exampleVotes = examplePlans"
  by (simp add: exampleVotes_def examplePlans_def example_taskPlan)

lemma example_remaining:
  "subtractRewards [(''uatom'', 100000000000000000000)] (plannedRewards examplePlans)
     = Return [(''uatom'', 2000000000000000000)]"
  "DecCoins_TruncateDecimal [(''uatom'', 2000000000000000000)] = Return ([(''uatom'', 2)], [])"
  by (simp_all add: examplePlans_def dec_defs coin_defs)

lemma example_send_community:
  "SendCoinsFromModuleToModule Distribution ProtocolPool [(''uatom'', 2)]
     (fold applyPlan examplePlans exampleAfterFees)
   = Inr ((fold applyPlan examplePlans exampleAfterFees)
       \<lparr>bank := (\<lambda>m. [])(FeeCollector := [], Distribution := [(''uatom'', 98)],
                          ProtocolPool := [(''uatom'', 2)]),
        sent := [(FeeCollector, Distribution, [(''uatom'', 100)]),
                 (Distribution, ProtocolPool, [(''uatom'', 2)])]\<rparr>)"
  by (simp add: SendCoinsFromModuleToModule_def Coins_IsValid_def exampleAfterFees_def
      negative_def keepNonZero_def)

lemma example_no_failure:
  "plannedPanic examplePlans = None" "plannedError examplePlans = None"
  by (simp_all add: examplePlans_def)

lemma example_run:
  "AllocateTokens exampleKeeper 100 exampleVotes feesState = Return (None, exampleFinal)"
  unfolding AllocateTokens_eq[OF example_send_fees example_fees(1,2)] example_fees(3)
    example_feeMultiplier example_plans
  by (simp add: example_no_failure example_remaining example_send_community exampleFinal_def)

lemma flush_example_returns:
  "\<exists>t. SendDecimalPoolToCommunityPool flushState = Return (None, t)"
proof -
  have tr: "DecCoins_TruncateDecimal [(''uatom'', 1999999000000000000)]
      = Return ([(''uatom'', 1)], [(''uatom'', 999999000000000000)])"
    by (simp add: dec_defs coin_defs)
  have "\<exists>s1. SendCoinsFromModuleToModule Distribution ProtocolPool [(''uatom'', 1)] flushState
      = Inr s1"
    by (simp add: SendCoinsFromModuleToModule_def Coins_IsValid_def flushState_def emptyState_def)
  then obtain s1 where
    "SendCoinsFromModuleToModule Distribution ProtocolPool [(''uatom'', 1)] flushState = Inr s1" ..
  moreover have "FeePool flushState = Some [(''uatom'', 1999999000000000000)]"
    by (simp add: flushState_def emptyState_def)
  ultimately show ?thesis
    by (simp add: SendDecimalPoolToCommunityPool_def Item_Get_def DecCoins_IsZero_def tr)
qed

theorem pool_stays_non_negative_witness:
  "AllocateTokens exampleKeeper 100 exampleVotes feesState = Return (None, exampleFinal) \<and>
   nonNegative (DecimalPool exampleFinal) \<and>
   (\<exists>t. SendDecimalPoolToCommunityPool flushState = Return (None, t) \<and>
        nonNegative (DecimalPool t))"
proof -
  have 1: "nonNegative (DecimalPool feesState) \<and> nonNegative (bank feesState FeeCollector) \<and>
    AllocateTokens exampleKeeper 100 exampleVotes feesState = Return (None, exampleFinal)"
    using example_run
    by (simp add: feesState_def emptyState_def DecimalPool_def nonNegative_def)
  obtain t where t: "SendDecimalPoolToCommunityPool flushState = Return (None, t)"
    using flush_example_returns by blast
  have 2: "nonNegative (DecimalPool flushState) \<and>
    SendDecimalPoolToCommunityPool flushState = Return (None, t)"
    using t by (simp add: flushState_def emptyState_def DecimalPool_def nonNegative_def)
  show ?thesis
    using pool_stays_non_negative[of feesState exampleKeeper 100 exampleVotes None exampleFinal]
      pool_stays_non_negative[of flushState _ _ _ _ _ None t] 1 2 t
    by blast
qed

subsection \<open>A cycle with a total power of zero\<close>

lemma zero_power_send_community:
  "SendCoinsFromModuleToModule Distribution ProtocolPool [(''uatom'', 100)]
     (exampleAfterFees\<lparr>FeePool := Some [(''uatom'', 100000000000000000000)]\<rparr>)
   = Inr (feesState\<lparr>bank := (\<lambda>m. [])(FeeCollector := [], Distribution := [],
                               ProtocolPool := [(''uatom'', 100)]),
                sent := [(FeeCollector, Distribution, [(''uatom'', 100)]),
                         (Distribution, ProtocolPool, [(''uatom'', 100)])],
                FeePool := Some [(''uatom'', 100000000000000000000)]\<rparr>)"
  by (simp add: SendCoinsFromModuleToModule_def Coins_IsValid_def exampleAfterFees_def
      feesState_def emptyState_def negative_def keepNonZero_def)

lemma zero_power_truncate:
  "DecCoins_TruncateDecimal [(''uatom'', 100000000000000000000)] = Return ([(''uatom'', 100)], [])"
  by (simp add: dec_defs coin_defs)

text \<open>
  C2, at a total power of zero. With no vote the call returns \<open>nil\<close>; the write of line 40
  (the pool plus the fees) is overwritten by the write of line 97 (the pool read at line
  34 plus the change of the fees, which is zero), and the whole of the fees has gone to the
  community fund. With a vote whose validator is found, line 69 divides by zero.
\<close>

theorem zero_power_cycle_runs_on:
  "AllocateTokens exampleKeeper 0 [] feesState = Return (None, zeroPowerFinal) \<and>
   FeePool zeroPowerFinal = FeePool feesState \<and>
   bank feesState ProtocolPool = [] \<and>
   bank zeroPowerFinal ProtocolPool = [(''uatom'', 100)] \<and>
   AllocateTokens exampleKeeper 0 [voteOf [1] 70] feesState = Panic DivisionByZero"
proof -
  have 1: "AllocateTokens exampleKeeper 0 [] feesState = Return (None, zeroPowerFinal)"
    unfolding AllocateTokens_eq[OF example_send_fees example_fees(1,2)] example_fees(3)
    by (simp add: zero_power_truncate zero_power_send_community zeroPowerFinal_def)
  have plan: "taskPlan exampleKeeper 0 fm (voteOf [1] 70) = TaskPanic DivisionByZero" for fm
    by (simp add: taskPlan_def exampleKeeper_def voteOf_def LegacyDec_QuoTruncate_def
        LegacyNewDec_def)
  have 2: "AllocateTokens exampleKeeper 0 [voteOf [1] 70] feesState = Panic DivisionByZero"
    unfolding AllocateTokens_eq[OF example_send_fees example_fees(1,2)]
    by (simp add: plan)
  show ?thesis
    using 1 2 by (simp add: zeroPowerFinal_def feesState_def emptyState_def)
qed

subsection \<open>Conservation\<close>

lemma wfState_applyPlan: "wfState s \<Longrightarrow> wfPlan plan \<Longrightarrow> wfState (applyPlan plan s)"
  by (cases plan) (simp_all add: wfState_credit validCoins_sorted)

lemma wfState_fold_applyPlan:
  "wfState s \<Longrightarrow> list_all wfPlan plans \<Longrightarrow> wfState (fold applyPlan plans s)"
  by (induction plans arbitrary: s) (simp_all add: wfState_applyPlan)

lemma outstanding_applyPlan:
  assumes "wfState s" "wfPlan plan"
  shows "AmountOf (outstandingOf (applyPlan plan s) key) d
       = AmountOf (outstandingOf s key) d + creditedTo key d plan"
proof (cases plan)
  case (TaskCredit valBz operator commission shared tokens)
  have "sortedDenoms (outstandingOf s key')" for key'
    using wfState_outstandingOf[OF assms(1)] by (rule validCoins_sorted)
  moreover have "sortedDenoms tokens" using assms(2) TaskCredit by (simp add: validCoins_sorted)
  ultimately show ?thesis
    using TaskCredit by (simp add: outstandingOf_credit AmountOf_safeAdd)
qed simp_all

lemma outstanding_fold_applyPlan:
  "wfState s \<Longrightarrow> list_all wfPlan plans \<Longrightarrow>
   AmountOf (outstandingOf (fold applyPlan plans s) key) d
     = AmountOf (outstandingOf s key) d + (\<Sum>plan\<leftarrow>plans. creditedTo key d plan)"
proof (induction plans arbitrary: s)
  case Nil
  then show ?case by simp
next
  case (Cons plan plans)
  have wf': "wfState (applyPlan plan s)" using Cons.prems by (simp add: wfState_applyPlan)
  show ?case
    using Cons.IH[OF wf'] Cons.prems outstanding_applyPlan[of s plan key d] by simp
qed

lemma wfPlan_taskPlan:
  assumes "sortedDenoms fm"
  shows "wfPlan (taskPlan k P fm vote)"
proof (cases "taskPlan k P fm vote")
  case (TaskCredit valBz operator commission shared tokens)
  then obtain val :: ValidatorI and fraction where
    tokens: "tokens = DecCoins_MulDecTruncate fm fraction"
    and commission: "commission = DecCoins_MulDec tokens (GetCommission val)"
    and sub: "DecCoins_Sub tokens commission = Return shared"
    by (auto simp add: taskPlan_def Let_def split: sum.splits exec.splits)
  have vt: "validCoins tokens" unfolding tokens by (rule validCoins_MulDecTruncate[OF assms])
  have vc: "validCoins commission"
    unfolding commission by (rule validCoins_MulDec[OF validCoins_sorted[OF vt]])
  have "validCoins shared"
    by (rule DecCoins_Sub_Return(1)[OF validCoins_sorted[OF vt] validCoins_sorted[OF vc] sub])
  then show ?thesis using TaskCredit vt vc by simp
qed simp_all

lemma taskPlan_voteKey:
  "taskPlan k P fm vote = TaskCredit valBz operator commission shared tokens \<Longrightarrow>
     voteKey k vote = [valBz]"
  by (auto simp add: taskPlan_def voteKey_def Let_def split: sum.splits exec.splits)

lemma sum_list_delta:
  "distinct keys \<Longrightarrow> (\<Sum>key\<leftarrow>keys. if valBz = key then (x::int) else 0)
     = (if valBz \<in> set keys then x else 0)"
  by (induction keys) auto

lemma creditedTo_sum_keys:
  assumes "distinct keys"
    and "\<And>valBz operator commission shared tokens.
           plan = TaskCredit valBz operator commission shared tokens \<Longrightarrow> valBz \<in> set keys"
  shows "(\<Sum>key\<leftarrow>keys. creditedTo key d plan)
       = (case plan of TaskCredit valBz operator commission shared tokens \<Rightarrow> AmountOf tokens d
          | TaskPanic p \<Rightarrow> 0 | TaskError err \<Rightarrow> 0)"
proof (cases plan)
  case (TaskCredit valBz operator commission shared tokens)
  then show ?thesis using sum_list_delta[OF assms(1)] assms(2) by simp
qed simp_all

lemma credited_total:
  assumes "distinct keys"
    and "\<And>valBz operator commission shared tokens.
           TaskCredit valBz operator commission shared tokens \<in> set plans \<Longrightarrow> valBz \<in> set keys"
  shows "(\<Sum>key\<leftarrow>keys. \<Sum>plan\<leftarrow>plans. creditedTo key d plan)
       = (\<Sum>tokens\<leftarrow>plannedRewards plans. AmountOf tokens d)"
  using assms(2)
proof (induction plans)
  case Nil
  then show ?case by simp
next
  case (Cons plan plans)
  have ih: "(\<Sum>key\<leftarrow>keys. \<Sum>plan\<leftarrow>plans. creditedTo key d plan)
       = (\<Sum>tokens\<leftarrow>plannedRewards plans. AmountOf tokens d)"
    by (rule Cons.IH) (use Cons.prems in \<open>simp; blast\<close>)
  have hd: "(\<Sum>key\<leftarrow>keys. creditedTo key d plan)
       = (case plan of TaskCredit valBz operator commission shared tokens \<Rightarrow> AmountOf tokens d
          | TaskPanic p \<Rightarrow> 0 | TaskError err \<Rightarrow> 0)"
    by (rule creditedTo_sum_keys[OF assms(1)]) (use Cons.prems in \<open>simp; blast\<close>)
  have "(\<Sum>key\<leftarrow>keys. \<Sum>p\<leftarrow>plan # plans. creditedTo key d p)
      = (\<Sum>key\<leftarrow>keys. creditedTo key d plan) + (\<Sum>key\<leftarrow>keys. \<Sum>p\<leftarrow>plans. creditedTo key d p)"
    by (simp add: sum_list_addf)
  then show ?case using ih hd by (cases plan) simp_all
qed

lemma subtractRewards_Return:
  assumes "validCoins E" "list_all validCoins ch" "subtractRewards E ch = Return remaining"
  shows "validCoins remaining \<and>
         AmountOf remaining d = AmountOf E d - (\<Sum>tokens\<leftarrow>ch. AmountOf tokens d)"
  using assms
proof (induction ch arbitrary: E)
  case Nil
  then show ?case by simp
next
  case (Cons reward ch)
  obtain r where sub: "DecCoins_Sub E reward = Return r"
    and rest: "subtractRewards r ch = Return remaining"
    using Cons.prems(3) by (auto split: exec.splits)
  have sE: "sortedDenoms E" using Cons.prems(1) by (rule validCoins_sorted)
  have sr: "sortedDenoms reward" using Cons.prems(2) by (simp add: validCoins_sorted)
  note S = DecCoins_Sub_Return[OF sE sr sub]
  have "list_all validCoins ch" using Cons.prems(2) by simp
  from Cons.IH[OF S(1) this rest] show ?case by (simp add: S(2))
qed

lemma plannedRewards_valid:
  "list_all wfPlan plans \<Longrightarrow> list_all validCoins (plannedRewards plans)"
proof (induction plans)
  case Nil
  then show ?case by simp
next
  case (Cons plan plans)
  then show ?case by (cases plan) simp_all
qed

lemma AllocateTokens_NoneE:
  assumes run: "AllocateTokens k P votes s = Return (None, s')"
  obtains s1 feePool tax remaining amt re s4 where
    "SendCoinsFromModuleToModule FeeCollector Distribution (bank s FeeCollector) s = Inr s1"
    "FeePool s = Some feePool" "CommunityTax s = Some tax"
    "plannedPanic (map (taskPlan k P (DecCoins_MulDecTruncate
        (NewDecCoinsFromCoins (bank s FeeCollector)) (LegacyOneDec - tax))) votes) = None"
    "plannedError (map (taskPlan k P (DecCoins_MulDecTruncate
        (NewDecCoinsFromCoins (bank s FeeCollector)) (LegacyOneDec - tax))) votes) = None"
    "subtractRewards (NewDecCoinsFromCoins (bank s FeeCollector))
       (plannedRewards (map (taskPlan k P (DecCoins_MulDecTruncate
          (NewDecCoinsFromCoins (bank s FeeCollector)) (LegacyOneDec - tax))) votes))
       = Return remaining"
    "DecCoins_TruncateDecimal remaining = Return (amt, re)"
    "SendCoinsFromModuleToModule Distribution ProtocolPool amt
       (fold applyPlan
          (map (taskPlan k P (DecCoins_MulDecTruncate
             (NewDecCoinsFromCoins (bank s FeeCollector)) (LegacyOneDec - tax))) votes)
          (if P = 0
           then s1\<lparr>FeePool := Some (safeAdd feePool (NewDecCoinsFromCoins (bank s FeeCollector)))\<rparr>
           else s1)) = Inr s4"
    "s' = s4\<lparr>FeePool := Some (safeAdd feePool re)\<rparr>"
proof (cases "SendCoinsFromModuleToModule FeeCollector Distribution (bank s FeeCollector) s")
  case (Inl err)
  then show ?thesis using run by (simp add: AllocateTokens_early(1))
next
  case (Inr s1)
  show ?thesis
  proof (cases "FeePool s")
    case None
    then show ?thesis using run Inr by (simp add: AllocateTokens_early(2))
  next
    case (Some feePool)
    show ?thesis
    proof (cases "CommunityTax s")
      case None
      then show ?thesis using run Inr Some by (simp add: AllocateTokens_early(3))
    next
      case tax: (Some tax)
      from AllocateTokens_Return_cases[OF Inr Some tax run] that[OF Inr Some tax]
      show ?thesis by blast
    qed
  qed
qed

lemma wfState_after_fees:
  assumes wf: "wfState s"
    and send: "SendCoinsFromModuleToModule FeeCollector Distribution (bank s FeeCollector) s = Inr s1"
    and pool: "FeePool s = Some feePool"
  shows "wfState (if P = 0
           then s1\<lparr>FeePool := Some (safeAdd feePool (NewDecCoinsFromCoins (bank s FeeCollector)))\<rparr>
           else s1)"
proof -
  have sb: "sortedDenoms (bank s m)" for m using wfState_bank[OF wf] by (rule validCoins_sorted)
  note B = Send_bank[OF send _ sb sb]
  have b1: "validCoins (bank s1 m)" for m
    using B(3)[of m] B(4,5) wfState_bank[OF wf, of m] by (cases m) auto
  note f = Send_frame[OF send]
  have wf1: "wfState s1"
    using wf b1 unfolding wfState_def f by simp
  have sp: "sortedDenoms feePool" using wf pool by (simp add: wfState_def validCoins_sorted)
  have sE: "sortedDenoms (NewDecCoinsFromCoins (bank s FeeCollector))"
    using validCoins_NewDecCoinsFromCoins[OF sb] by (rule validCoins_sorted)
  show ?thesis
    using wf1 validCoins_safeAdd[OF sp sE] by (simp add: wfState_def)
qed

text \<open>
  C1. A call of \<open>AllocateTokens\<close> that returns \<open>nil\<close> from a well-formed state conserves
  the envelope exactly, in every denomination: what the outstanding rewards of the voted
  validators grew by, plus what the community fund received, plus what the pool grew by,
  is what the fee collector held. Nothing is asked of the tax rate, of the powers or of the
  total power.
\<close>

theorem conservation:
  assumes wf: "wfState s" and run: "AllocateTokens k P votes s = Return (None, s')"
  shows "(\<Sum>valBz\<leftarrow>votedValidators k votes.
            AmountOf (outstandingOf s' valBz) d - AmountOf (outstandingOf s valBz) d)
         + LegacyNewDec (AmountOf (bank s' ProtocolPool) d - AmountOf (bank s ProtocolPool) d)
         + (AmountOf (DecimalPool s') d - AmountOf (DecimalPool s) d)
         = LegacyNewDec (AmountOf (bank s FeeCollector) d)"
proof -
  let ?E = "NewDecCoinsFromCoins (bank s FeeCollector)"
  from run obtain s1 feePool tax remaining amt re s4 where
    send: "SendCoinsFromModuleToModule FeeCollector Distribution (bank s FeeCollector) s = Inr s1"
    and pool: "FeePool s = Some feePool" and tax: "CommunityTax s = Some tax"
    and sub: "subtractRewards ?E
       (plannedRewards (map (taskPlan k P (DecCoins_MulDecTruncate ?E (LegacyOneDec - tax))) votes))
       = Return remaining"
    and tr: "DecCoins_TruncateDecimal remaining = Return (amt, re)"
    and send2: "SendCoinsFromModuleToModule Distribution ProtocolPool amt
       (fold applyPlan
          (map (taskPlan k P (DecCoins_MulDecTruncate ?E (LegacyOneDec - tax))) votes)
          (if P = 0 then s1\<lparr>FeePool := Some (safeAdd feePool ?E)\<rparr> else s1)) = Inr s4"
    and s': "s' = s4\<lparr>FeePool := Some (safeAdd feePool re)\<rparr>"
    by (rule AllocateTokens_NoneE)
  define fm where "fm = DecCoins_MulDecTruncate ?E (LegacyOneDec - tax)"
  define plans where "plans = map (taskPlan k P fm) votes"
  define s2 where "s2 = (if P = 0 then s1\<lparr>FeePool := Some (safeAdd feePool ?E)\<rparr> else s1)"
  define keys where "keys = votedValidators k votes"
  note sub = sub[folded fm_def, folded plans_def]
  note send2 = send2[folded fm_def, folded plans_def, folded s2_def]
  have sb: "sortedDenoms (bank s m)" for m using wfState_bank[OF wf] by (rule validCoins_sorted)
  have vE: "validCoins ?E" by (rule validCoins_NewDecCoinsFromCoins[OF sb])
  have sfm: "sortedDenoms fm"
    unfolding fm_def
    using validCoins_MulDecTruncate[OF validCoins_sorted[OF vE]] by (rule validCoins_sorted)
  have wp: "list_all wfPlan plans"
    by (simp add: plans_def list_all_iff wfPlan_taskPlan[OF sfm])
  have wf2: "wfState s2" unfolding s2_def by (rule wfState_after_fees[OF wf send pool])
  note f1 = Send_frame[OF send]
  have o2: "outstandingOf s2 key = outstandingOf s key" for key
    by (simp add: s2_def outstandingOf_def f1)
  have b2: "bank s2 = bank s1" by (simp add: s2_def)
  \<comment> \<open>the outstanding rewards\<close>
  have o3: "AmountOf (outstandingOf (fold applyPlan plans s2) key) d
      = AmountOf (outstandingOf s key) d + (\<Sum>plan\<leftarrow>plans. creditedTo key d plan)" for key
    using outstanding_fold_applyPlan[OF wf2 wp, of key d] by (simp add: o2)
  note f4 = Send_frame[OF send2]
  have o': "outstandingOf s' key = outstandingOf (fold applyPlan plans s2) key" for key
    by (simp add: s' outstandingOf_def f4)
  have dist: "distinct keys" by (simp add: keys_def votedValidators_def)
  have mem: "valBz \<in> set keys"
    if "TaskCredit valBz operator commission shared tokens \<in> set plans"
    for valBz operator commission shared tokens
  proof -
    from that obtain vote where v: "vote \<in> set votes"
      and tp: "taskPlan k P fm vote = TaskCredit valBz operator commission shared tokens"
      by (auto simp add: plans_def)
    have "voteKey k vote = [valBz]" using tp by (rule taskPlan_voteKey)
    then have "valBz \<in> set (voteKey k vote)" by simp
    then show ?thesis
      using v unfolding keys_def votedValidators_def by auto
  qed
  have total: "(\<Sum>key\<leftarrow>keys. AmountOf (outstandingOf s' key) d - AmountOf (outstandingOf s key) d)
      = (\<Sum>tokens\<leftarrow>plannedRewards plans. AmountOf tokens d)"
    using credited_total[where keys = keys and plans = plans and d = d, OF dist mem]
    by (simp add: o' o3)
  \<comment> \<open>what remains\<close>
  have rem: "validCoins remaining"
    "AmountOf remaining d = AmountOf ?E d - (\<Sum>tokens\<leftarrow>plannedRewards plans. AmountOf tokens d)"
    using subtractRewards_Return[OF vE plannedRewards_valid[OF wp] sub] by simp_all
  note T = TruncateDecimal_Return[OF validCoins_sorted[OF rem(1)] tr]
  \<comment> \<open>the community fund\<close>
  have sb1: "sortedDenoms (bank s1 m)" for m
    using wfState_bank[OF wf2, of m] by (simp add: b2 validCoins_sorted)
  have p1: "bank s1 ProtocolPool = bank s ProtocolPool"
    using Send_bank(3)[OF send _ sb sb, of ProtocolPool] by simp
  have bank3: "bank (fold applyPlan plans s2) = bank s1" by (simp add: b2)
  have sb3: "sortedDenoms (bank (fold applyPlan plans s2) m)" for m
    using sb1 by (simp add: b2)
  have fund: "AmountOf (bank s' ProtocolPool) d = AmountOf (bank s ProtocolPool) d + AmountOf amt d"
    using Send_bank(1)[OF send2 _ sb3 sb3, of d] by (simp add: s' b2 p1)
  \<comment> \<open>the pool\<close>
  have sp: "sortedDenoms feePool" using wf pool by (simp add: wfState_def validCoins_sorted)
  have poolD: "AmountOf (DecimalPool s') d = AmountOf (DecimalPool s) d + AmountOf re d"
    by (simp add: s' DecimalPool_def pool AmountOf_safeAdd[OF sp validCoins_sorted[OF T(2)]])
  have E: "AmountOf ?E d = LegacyNewDec (AmountOf (bank s FeeCollector) d)"
    by (rule AmountOf_NewDecCoinsFromCoins[OF sb])
  show ?thesis
    unfolding keys_def[symmetric] total
    using fund poolD rem(2) T(3)[of d] T(4)[of d] E
    by (simp add: LegacyNewDec_def algebra_simps)
qed

lemma wfState_feesState: "wfState feesState"
  by (simp add: wfState_def feesState_def emptyState_def validCoins_def)

lemma exampleFinal_values:
  "AmountOf (outstandingOf exampleFinal [10]) ''uatom'' = 68600000000000000000"
  "AmountOf (outstandingOf exampleFinal [11]) ''uatom'' = 29400000000000000000"
  "AmountOf (bank exampleFinal ProtocolPool) ''uatom'' = 2"
  "DecimalPool exampleFinal = []"
  by (simp_all add: exampleFinal_def examplePlans_def exampleAfterFees_def feesState_def
      emptyState_def outstandingOf_def DecimalPool_def credit_def keepNonZero_def)

theorem conservation_witness:
  "AllocateTokens exampleKeeper 100 exampleVotes feesState = Return (None, exampleFinal) \<and>
   (\<Sum>valBz\<leftarrow>votedValidators exampleKeeper exampleVotes.
       AmountOf (outstandingOf exampleFinal valBz) ''uatom''
         - AmountOf (outstandingOf feesState valBz) ''uatom'')
     + LegacyNewDec (AmountOf (bank exampleFinal ProtocolPool) ''uatom''
         - AmountOf (bank feesState ProtocolPool) ''uatom'')
     + (AmountOf (DecimalPool exampleFinal) ''uatom'' - AmountOf (DecimalPool feesState) ''uatom'')
     = LegacyNewDec (AmountOf (bank feesState FeeCollector) ''uatom'') \<and>
   AmountOf (outstandingOf exampleFinal [10]) ''uatom'' = 68600000000000000000 \<and>
   AmountOf (outstandingOf exampleFinal [11]) ''uatom'' = 29400000000000000000 \<and>
   AmountOf (bank exampleFinal ProtocolPool) ''uatom'' = 2 \<and>
   AmountOf (DecimalPool exampleFinal) ''uatom'' = 0 \<and>
   LegacyNewDec (AmountOf (bank feesState FeeCollector) ''uatom'') = 100000000000000000000"
  using conservation[OF wfState_feesState example_run, of "''uatom''"] example_run
    exampleFinal_values
  by (simp add: feesState_def LegacyNewDec_def precisionReuse_def)

subsection \<open>The sign of a reward\<close>






subsection \<open>A vote with a negative power\<close>























subsection \<open>Order independence\<close>





























end
